theory Spec2Isabelle
  imports Main
begin

section \<open>Platform tasks of the Red Hat family (ipaplatform/redhat/tasks.py)\<close>

text \<open>
  The module is a collection of independent operations. Each one is embedded as a function
  from the part of the world it reads (files, collaborators, outcomes of child processes)
  to what it returns or raises and what it did. Exceptions are values of \<open>exn\<close>;
  a call that raises yields \<open>Inl e\<close>.
\<close>

subsection \<open>Exceptions\<close>

datatype exn =
    AssertionError
  | UnicodeEncodeError
  | IndexError
  | CalledProcessError
  | OSError nat
  | LibraryLoadError
  | DecodeError
  | PyAsn1Error
  | SetseboolError "(string \<times> string) list" string
  | OtherError string

text \<open>The two \<open>errno\<close> values the module or the properties below mention.\<close>

definition ENOENT :: nat where
  "ENOENT = 2"

definition EACCES :: nat where
  "EACCES = 13"

subsection \<open>Python strings and their UTF-8 encoding\<close>

text \<open>
  A Python \<open>str\<close> is a sequence of code points, a byte string a sequence of \<open>char\<close>
  (HOL's \<open>char\<close> is a byte). \<open>str.encode('utf-8')\<close> raises on a lone surrogate;
  a number from \<open>0x110000\<close> on is no code point of a Python \<open>str\<close> and is refused
  the same way.
\<close>

type_synonym pystr = "nat list"

definition pystr :: "string \<Rightarrow> pystr" where
  "pystr s = map of_char s"

definition utf8_char :: "nat \<Rightarrow> exn + string" where
  "utf8_char c =
     (if c < 0x80 then Inr [char_of c]
      else if c < 0x800 then
        Inr [char_of (0xC0 + c div 0x40), char_of (0x80 + c mod 0x40)]
      else if 0xD800 \<le> c \<and> c \<le> 0xDFFF then Inl UnicodeEncodeError
      else if c < 0x10000 then
        Inr [char_of (0xE0 + c div 0x1000), char_of (0x80 + (c div 0x40) mod 0x40),
             char_of (0x80 + c mod 0x40)]
      else if c < 0x110000 then
        Inr [char_of (0xF0 + c div 0x40000), char_of (0x80 + (c div 0x1000) mod 0x40),
             char_of (0x80 + (c div 0x40) mod 0x40), char_of (0x80 + c mod 0x40)]
      else Inl UnicodeEncodeError)"

fun encode_utf8 :: "pystr \<Rightarrow> exn + string" where
  "encode_utf8 [] = Inr []"
| "encode_utf8 (c # cs) =
     (case utf8_char c of
        Inl e \<Rightarrow> Inl e
      | Inr bs \<Rightarrow> (case encode_utf8 cs of Inl e \<Rightarrow> Inl e | Inr rest \<Rightarrow> Inr (bs @ rest)))"

subsection \<open>The vendor's version comparison\<close>

text \<open>
  \<open>IPAVersion._rpmvercmp\<close> calls \<open>rpmvercmp\<close> of the native library librpm, which is
  loaded at run time and is not part of the source file. The comparison is therefore
  taken from the specification (section 4.1): split into segments, compare the segments
  left to right.
\<close>

datatype cmp_result = LESS | EQUAL | GREATER


definition risdigit :: "char \<Rightarrow> bool" where
  "risdigit c = (c \<in> set ''0123456789'')"

definition risalpha :: "char \<Rightarrow> bool" where
  "risalpha c = (c \<in> set ''abcdefghijklmnopqrstuvwxyzABCDEFGHIJKLMNOPQRSTUVWXYZ'')"

definition is_tilde :: "char \<Rightarrow> bool" where
  "is_tilde c = (c = CHR ''~'')"

text \<open>Every other byte is a separator: a split point that is never compared.\<close>

definition is_separator :: "char \<Rightarrow> bool" where
  "is_separator c = (\<not> risdigit c \<and> \<not> risalpha c \<and> \<not> is_tilde c)"

datatype segment = Numeric string | Alphabetic string | TildeMarker

text \<open>
  Modelled from the spec: step 1 of the algorithm of section 4.1 (the tokeniser of librpm's
  \<open>rpmvercmp\<close>, which is missing from the source). A new segment starts whenever the
  character class changes between digit, alphabetic and other; a tilde is a marker of its
  own; separators only split.
\<close>

function segments :: "string \<Rightarrow> segment list" where
  "segments [] = []"
| "segments (c # cs) =
     (if risdigit c then
        Numeric (c # takeWhile risdigit cs) # segments (dropWhile risdigit cs)
      else if risalpha c then
        Alphabetic (c # takeWhile risalpha cs) # segments (dropWhile risalpha cs)
      else if is_tilde c then TildeMarker # segments cs
      else segments cs)"
  by pat_completeness auto
termination
  by (relation "measure length") (auto simp: length_dropWhile_le less_Suc_eq_le)

text \<open>
  Modelled from the spec: a numeric segment read as an arbitrary-precision integer (so
  leading zeros do not count).
\<close>

definition digit_value :: "char \<Rightarrow> nat" where
  "digit_value c = of_char c - 48"

definition numeric_value :: "string \<Rightarrow> nat" where
  "numeric_value ds = foldl (\<lambda>n c. 10 * n + digit_value c) 0 ds"

definition nat_cmp :: "nat \<Rightarrow> nat \<Rightarrow> cmp_result" where
  "nat_cmp m n = (if m < n then LESS else if n < m then GREATER else EQUAL)"

text \<open>Modelled from the spec: alphabetic segments compare lexicographically by raw byte value.\<close>

fun bytes_cmp :: "string \<Rightarrow> string \<Rightarrow> cmp_result" where
  "bytes_cmp [] [] = EQUAL"
| "bytes_cmp [] (y # ys) = LESS"
| "bytes_cmp (x # xs) [] = GREATER"
| "bytes_cmp (x # xs) (y # ys) =
     (case nat_cmp (of_char x) (of_char y) of EQUAL \<Rightarrow> bytes_cmp xs ys | r \<Rightarrow> r)"

text \<open>
  Modelled from the spec: step 2 for two segments at the same position. A numeric segment
  is always greater than an alphabetic one; a tilde marker is less than anything but
  another tilde marker (step 4).
\<close>

fun segment_cmp :: "segment \<Rightarrow> segment \<Rightarrow> cmp_result" where
  "segment_cmp (Numeric a) (Numeric b) = nat_cmp (numeric_value a) (numeric_value b)"
| "segment_cmp (Numeric a) (Alphabetic b) = GREATER"
| "segment_cmp (Alphabetic a) (Numeric b) = LESS"
| "segment_cmp (Alphabetic a) (Alphabetic b) = bytes_cmp a b"
| "segment_cmp TildeMarker TildeMarker = EQUAL"
| "segment_cmp TildeMarker s = LESS"
| "segment_cmp s TildeMarker = GREATER"

text \<open>
  Modelled from the spec: steps 2 and 3 for the two segment lists. When one side runs out,
  the longer side is greater, unless its extra segment is a tilde marker.
\<close>

fun segments_cmp :: "segment list \<Rightarrow> segment list \<Rightarrow> cmp_result" where
  "segments_cmp [] [] = EQUAL"
| "segments_cmp [] (t # ts) = (if t = TildeMarker then GREATER else LESS)"
| "segments_cmp (s # ss) [] = (if s = TildeMarker then LESS else GREATER)"
| "segments_cmp (s # ss) (t # ts) =
     (case segment_cmp s t of EQUAL \<Rightarrow> segments_cmp ss ts | r \<Rightarrow> r)"

text \<open>Modelled from the spec: the contract \<open>compare(a, b)\<close> of section 4.1.\<close>

definition compare :: "string \<Rightarrow> string \<Rightarrow> cmp_result" where
  "compare a b = segments_cmp (segments a) (segments b)"

text \<open>
  Modelled from the spec: librpm's \<open>int rpmvercmp(const char *a, const char *b)\<close>, the
  comparison above returned as a C \<open>int\<close>.
\<close>

definition rpmvercmp :: "string \<Rightarrow> string \<Rightarrow> int" where
  "rpmvercmp a b = (case compare a b of LESS \<Rightarrow> - 1 | EQUAL \<Rightarrow> 0 | GREATER \<Rightarrow> 1)"

subsection \<open>IPAVersion\<close>

text \<open>
  The class attribute \<open>_rpmvercmp_func\<close> caches the routine once it is loaded; the
  library that \<open>ctypes.CDLL(find_library('rpm'))\<close> finds is the parameter \<open>librpm\<close>
  (\<open>Inl\<close> when loading fails). The arguments are declared \<open>c_char_p\<close>: the C routine
  reads each byte string up to its first NUL byte.
\<close>

type_synonym rpmvercmp_func = "string \<Rightarrow> string \<Rightarrow> int"

definition c_char_p :: "string \<Rightarrow> string" where
  "c_char_p bs = takeWhile (\<lambda>c. c \<noteq> CHR 0x00) bs"

definition IPAVersion_rpmvercmp ::
  "exn + rpmvercmp_func \<Rightarrow> rpmvercmp_func option \<Rightarrow> string \<Rightarrow> string
     \<Rightarrow> (exn + int) \<times> rpmvercmp_func option" where
  "IPAVersion_rpmvercmp librpm cache a b =
     (case cache of
        None \<Rightarrow>
          (case librpm of
             Inl e \<Rightarrow> (Inl e, None)
           | Inr f \<Rightarrow> (Inr (f (c_char_p a) (c_char_p b)), Some f))
      | Some f \<Rightarrow> (Inr (f (c_char_p a) (c_char_p b)), Some f))"

record IPAVersion =
  version_str :: pystr
  version_bytes :: string

definition IPAVersion_init :: "pystr \<Rightarrow> exn + IPAVersion" where
  "IPAVersion_init version =
     (case encode_utf8 version of
        Inl e \<Rightarrow> Inl e
      | Inr bs \<Rightarrow> Inr \<lparr>version_str = version, version_bytes = bs\<rparr>)"

definition parse_ipa_version :: "pystr \<Rightarrow> exn + IPAVersion" where
  "parse_ipa_version version = IPAVersion_init version"

definition IPAVersion_eq ::
  "exn + rpmvercmp_func \<Rightarrow> rpmvercmp_func option \<Rightarrow> IPAVersion \<Rightarrow> IPAVersion
     \<Rightarrow> (exn + bool) \<times> rpmvercmp_func option" where
  "IPAVersion_eq librpm cache self other =
     (case IPAVersion_rpmvercmp librpm cache (version_bytes self) (version_bytes other) of
        (Inl e, cache') \<Rightarrow> (Inl e, cache')
      | (Inr rc, cache') \<Rightarrow> (Inr (rc = 0), cache'))"

definition IPAVersion_lt ::
  "exn + rpmvercmp_func \<Rightarrow> rpmvercmp_func option \<Rightarrow> IPAVersion \<Rightarrow> IPAVersion
     \<Rightarrow> (exn + bool) \<times> rpmvercmp_func option" where
  "IPAVersion_lt librpm cache self other =
     (case IPAVersion_rpmvercmp librpm cache (version_bytes self) (version_bytes other) of
        (Inl e, cache') \<Rightarrow> (Inl e, cache')
      | (Inr rc, cache') \<Rightarrow> (Inr (rc < 0), cache'))"

text \<open>
  The three-way comparison a caller reads off the two methods: \<open>a == b\<close> first, then
  \<open>a < b\<close>, the cache threaded through both calls.
\<close>

definition version_compare ::
  "exn + rpmvercmp_func \<Rightarrow> rpmvercmp_func option \<Rightarrow> IPAVersion \<Rightarrow> IPAVersion
     \<Rightarrow> (exn + cmp_result) \<times> rpmvercmp_func option" where
  "version_compare librpm cache a b =
     (case IPAVersion_eq librpm cache a b of
        (Inl e, c1) \<Rightarrow> (Inl e, c1)
      | (Inr True, c1) \<Rightarrow> (Inr EQUAL, c1)
      | (Inr False, c1) \<Rightarrow>
          (case IPAVersion_lt librpm c1 a b of
             (Inl e, c2) \<Rightarrow> (Inl e, c2)
           | (Inr lt, c2) \<Rightarrow> (Inr (if lt then LESS else GREATER), c2)))"

text \<open>
  Comparing two version strings: both are parsed, then compared. The result is what the
  call returns or raises, and the cache it leaves.
\<close>

definition compare_versions ::
  "exn + rpmvercmp_func \<Rightarrow> rpmvercmp_func option \<Rightarrow> pystr \<Rightarrow> pystr
     \<Rightarrow> (exn + cmp_result) \<times> rpmvercmp_func option" where
  "compare_versions librpm cache a b =
     (case parse_ipa_version a of
        Inl e \<Rightarrow> (Inl e, cache)
      | Inr va \<Rightarrow>
          (case parse_ipa_version b of
             Inl e \<Rightarrow> (Inl e, cache)
           | Inr vb \<Rightarrow> version_compare librpm cache va vb))"

text \<open>
  The separators the native routine can meet. \<open>IPAVersion._rpmvercmp\<close> hands each version
  over as a \<open>c_char_p\<close>, so the routine reads it up to its first NUL byte: NUL, a separator
  by its character class, ends the string instead of splitting it. A separator byte is a
  separator other than NUL; a separator character of a Python string is one whose UTF-8
  encoding is made of separator bytes.
\<close>

definition separator_byte :: "char \<Rightarrow> bool" where
  "separator_byte b = (is_separator b \<and> b \<noteq> CHR 0x00)"

definition separator_char :: "nat \<Rightarrow> bool" where
  "separator_char x =
     (case utf8_char x of Inl e \<Rightarrow> False | Inr bs \<Rightarrow> list_all separator_byte bs)"

subsection \<open>The world the tasks act on\<close>

text \<open>
  Text other than version strings is a \<open>string\<close>: the tasks only compare, join and split
  it. The world holds the files (path to content), their modes, the files the backup store
  holds, and the trace of every operation a task performed on the file system, on a child
  process or on a collaborator, in order. Logging is not modelled.
\<close>

datatype event =
    Run "string list"
  | IsFile string
  | Exists string
  | OpenRead string
  | OpenWrite string
  | Write string string
  | Fchmod string nat
  | Unlink string
  | FstoreHasFile string
  | FstoreBackupFile string
  | FstoreRestoreFile string
  | BackupFunc string string
  | SuperConfigureDnsResolver "string list" "string list" bool bool
  | NMIsEnabled
  | NMReloadOrRestart

record world =
  files :: "string \<rightharpoonup> string"
  modes :: "string \<rightharpoonup> nat"
  stored :: "string \<rightharpoonup> string"
  trace :: "event list"

text \<open>
  What the environment decides: the outcome of each child process (\<open>ipautil.run\<close>
  returns the output or raises), which operations on files and collaborators fail and with
  what. Collaborators that are objects of other modules are parameters of the task that
  calls them.
\<close>

record env =
  run :: "string list \<Rightarrow> exn + string"
  faults :: "event \<Rightarrow> exn option"

text \<open>
  The constants of \<open>ipaplatform.paths\<close> that the tasks below use. That module is not part
  of the source file, so the paths are parameters.
\<close>

record paths =
  SELINUXENABLED :: string
  GETSEBOOL :: string
  SETSEBOOL :: string
  SBIN_RESTORECON :: string
  SYSTEMCTL :: string
  SYSTEMD_SYSTEM_HTTPD_IPA_CONF :: string
  RESOLV_CONF :: string
  NETWORK_MANAGER_IPA_CONF :: string
  ETC_PKCS11_MODULES_DIR :: string
  LIBSOFTHSM2_SO :: string

definition record_event :: "event \<Rightarrow> world \<Rightarrow> world" where
  "record_event ev w = w\<lparr>trace := trace w @ [ev]\<rparr>"

text \<open>\<open>ipautil.run(args)\<close>: the command is run, its outcome is the environment's.\<close>

definition ipautil_run :: "env \<Rightarrow> string list \<Rightarrow> world \<Rightarrow> (exn + string) \<times> world" where
  "ipautil_run E args w = (run E args, record_event (Run args) w)"

text \<open>
  \<open>ipautil.run(args, raiseonerr=False)\<close>: a non-zero exit status is not raised.
\<close>

definition ipautil_run_noraise :: "env \<Rightarrow> string list \<Rightarrow> world \<Rightarrow> (exn + unit) \<times> world" where
  "ipautil_run_noraise E args w =
     (case run E args of
        Inl CalledProcessError \<Rightarrow> (Inr (), record_event (Run args) w)
      | Inl e \<Rightarrow> (Inl e, record_event (Run args) w)
      | Inr out \<Rightarrow> (Inr (), record_event (Run args) w))"

definition os_path_isfile :: "string \<Rightarrow> world \<Rightarrow> bool \<times> world" where
  "os_path_isfile p w = (files w p \<noteq> None, record_event (IsFile p) w)"

definition os_path_exists :: "string \<Rightarrow> world \<Rightarrow> bool \<times> world" where
  "os_path_exists p w = (files w p \<noteq> None, record_event (Exists p) w)"

text \<open>\<open>os.path.join(a, b)\<close> on POSIX.\<close>

definition os_path_join :: "string \<Rightarrow> string \<Rightarrow> string" where
  "os_path_join a b =
     (if b \<noteq> [] \<and> hd b = CHR ''/'' then b
      else if a = [] \<or> last a = CHR ''/'' then a @ b
      else a @ ''/'' @ b)"

text \<open>\<open>with open(p) as f: content = f.read()\<close>\<close>

definition read_file :: "env \<Rightarrow> string \<Rightarrow> world \<Rightarrow> (exn + string) \<times> world" where
  "read_file E p w =
     (case faults E (OpenRead p) of
        Some e \<Rightarrow> (Inl e, record_event (OpenRead p) w)
      | None \<Rightarrow>
          (case files w p of
             None \<Rightarrow> (Inl (OSError ENOENT), record_event (OpenRead p) w)
           | Some content \<Rightarrow> (Inr content, record_event (OpenRead p) w)))"

text \<open>\<open>open(p, 'w')\<close> creates or truncates the file.\<close>

definition open_write :: "env \<Rightarrow> string \<Rightarrow> world \<Rightarrow> (exn + unit) \<times> world" where
  "open_write E p w =
     (case faults E (OpenWrite p) of
        Some e \<Rightarrow> (Inl e, record_event (OpenWrite p) w)
      | None \<Rightarrow> (Inr (), record_event (OpenWrite p) (w\<lparr>files := (files w)(p \<mapsto> [])\<rparr>)))"

text \<open>\<open>f.write(text)\<close> on the file opened at \<open>p\<close>: the text is appended.\<close>

definition file_write :: "env \<Rightarrow> string \<Rightarrow> string \<Rightarrow> world \<Rightarrow> (exn + unit) \<times> world" where
  "file_write E p txt w =
     (case faults E (Write p txt) of
        Some e \<Rightarrow> (Inl e, record_event (Write p txt) w)
      | None \<Rightarrow>
          (Inr (), record_event (Write p txt)
             (w\<lparr>files := (files w)(p \<mapsto> (case files w p of None \<Rightarrow> txt | Some old \<Rightarrow> old @ txt))\<rparr>)))"

definition os_fchmod :: "env \<Rightarrow> string \<Rightarrow> nat \<Rightarrow> world \<Rightarrow> (exn + unit) \<times> world" where
  "os_fchmod E p m w =
     (case faults E (Fchmod p m) of
        Some e \<Rightarrow> (Inl e, record_event (Fchmod p m) w)
      | None \<Rightarrow> (Inr (), record_event (Fchmod p m) (w\<lparr>modes := (modes w)(p \<mapsto> m)\<rparr>)))"

text \<open>\<open>os.unlink(p)\<close>: a missing file is the error \<open>ENOENT\<close>.\<close>

definition os_unlink :: "env \<Rightarrow> string \<Rightarrow> world \<Rightarrow> (exn + unit) \<times> world" where
  "os_unlink E p w =
     (case faults E (Unlink p) of
        Some e \<Rightarrow> (Inl e, record_event (Unlink p) w)
      | None \<Rightarrow>
          (case files w p of
             None \<Rightarrow> (Inl (OSError ENOENT), record_event (Unlink p) w)
           | Some content \<Rightarrow>
               (Inr (), record_event (Unlink p)
                  (w\<lparr>files := (files w)(p := None), modes := (modes w)(p := None)\<rparr>))))"

text \<open>
  Modelled from the spec: the file-backup store of section 6
  (\<open>has_file/backup_file/restore_file\<close>), a collaborator defined outside the source file.
  \<open>backup_file\<close> keeps a copy of the file, \<open>has_file\<close> tells whether a copy is kept,
  \<open>restore_file\<close> puts the copy back and forgets it.
\<close>

definition fstore_has_file :: "env \<Rightarrow> string \<Rightarrow> world \<Rightarrow> (exn + bool) \<times> world" where
  "fstore_has_file E p w =
     (case faults E (FstoreHasFile p) of
        Some e \<Rightarrow> (Inl e, record_event (FstoreHasFile p) w)
      | None \<Rightarrow> (Inr (stored w p \<noteq> None), record_event (FstoreHasFile p) w))"

definition fstore_backup_file :: "env \<Rightarrow> string \<Rightarrow> world \<Rightarrow> (exn + unit) \<times> world" where
  "fstore_backup_file E p w =
     (case faults E (FstoreBackupFile p) of
        Some e \<Rightarrow> (Inl e, record_event (FstoreBackupFile p) w)
      | None \<Rightarrow>
          (case files w p of
             None \<Rightarrow> (Inr (), record_event (FstoreBackupFile p) w)
           | Some content \<Rightarrow>
               (Inr (), record_event (FstoreBackupFile p)
                  (w\<lparr>stored := (stored w)(p \<mapsto> content)\<rparr>))))"

definition fstore_restore_file :: "env \<Rightarrow> string \<Rightarrow> world \<Rightarrow> (exn + unit) \<times> world" where
  "fstore_restore_file E p w =
     (case faults E (FstoreRestoreFile p) of
        Some e \<Rightarrow> (Inl e, record_event (FstoreRestoreFile p) w)
      | None \<Rightarrow>
          (case stored w p of
             None \<Rightarrow> (Inl (OtherError ''ValueError''), record_event (FstoreRestoreFile p) w)
           | Some content \<Rightarrow>
               (Inr (), record_event (FstoreRestoreFile p)
                  (w\<lparr>files := (files w)(p \<mapsto> content), stored := (stored w)(p := None)\<rparr>))))"

subsection \<open>SELinux\<close>

text \<open>
  \<open>is_selinux_enabled\<close>: \<open>selinuxenabled\<close> exits with 1 when SELinux is off; a missing
  binary is an \<open>OSError\<close>. Both mean "not enabled".
\<close>

definition is_selinux_enabled :: "env \<Rightarrow> paths \<Rightarrow> world \<Rightarrow> (exn + bool) \<times> world" where
  "is_selinux_enabled E P w =
     (case ipautil_run E [SELINUXENABLED P] w of
        (Inl CalledProcessError, w1) \<Rightarrow> (Inr False, w1)
      | (Inl (OSError n), w1) \<Rightarrow> (Inr False, w1)
      | (Inl e, w1) \<Rightarrow> (Inl e, w1)
      | (Inr out, w1) \<Rightarrow> (Inr True, w1))"

definition restore_context :: "env \<Rightarrow> paths \<Rightarrow> string \<Rightarrow> bool \<Rightarrow> world \<Rightarrow> (exn + unit) \<times> world" where
  "restore_context E P filepath force w =
     (case is_selinux_enabled E P w of
        (Inl e, w1) \<Rightarrow> (Inl e, w1)
      | (Inr False, w1) \<Rightarrow> (Inr (), w1)
      | (Inr True, w1) \<Rightarrow>
          (case os_path_exists (SBIN_RESTORECON P) w1 of
             (False, w2) \<Rightarrow> (Inr (), w2)
           | (True, w2) \<Rightarrow>
               ipautil_run_noraise E
                 ([SBIN_RESTORECON P] @ (if force then [''-F''] else []) @ [filepath]) w2))"

text \<open>
  A \<open>dict\<close> keeps its keys in insertion order: an association list with distinct keys.
  \<open>d[k] = v\<close> replaces the value of a key that is there and appends a new key.
\<close>

type_synonym ('k, 'v) dict = "('k \<times> 'v) list"

fun dict_set :: "('k, 'v) dict \<Rightarrow> 'k \<Rightarrow> 'v \<Rightarrow> ('k, 'v) dict" where
  "dict_set [] k v = [(k, v)]"
| "dict_set ((k', v') # d) k v = (if k' = k then (k, v) # d else (k', v') # dict_set d k v)"

fun dict_update :: "('k, 'v) dict \<Rightarrow> ('k, 'v) dict \<Rightarrow> ('k, 'v) dict" where
  "dict_update d [] = d"
| "dict_update d ((k, v) # other) = dict_update (dict_set d k v) other"

text \<open>
  \<open>str.split()\<close>: the words between runs of white space (the white space of ASCII;
  the output of the commands below is ASCII).
\<close>

definition is_space :: "char \<Rightarrow> bool" where
  "is_space c = (c \<in> set [CHR '' '', CHR 0x09, CHR 0x0A, CHR 0x0B, CHR 0x0C, CHR 0x0D,
                             CHR 0x1C, CHR 0x1D, CHR 0x1E, CHR 0x1F])"

function py_split :: "string \<Rightarrow> string list" where
  "py_split [] = []"
| "py_split (c # cs) =
     (if is_space c then py_split cs
      else (c # takeWhile (\<lambda>x. \<not> is_space x) cs) # py_split (dropWhile (\<lambda>x. \<not> is_space x) cs))"
  by pat_completeness auto
termination
  by (relation "measure length") (auto simp: length_dropWhile_le less_Suc_eq_le)

definition py_index :: "'a list \<Rightarrow> nat \<Rightarrow> exn + 'a" where
  "py_index xs i = (if i < length xs then Inr (xs ! i) else Inl IndexError)"

fun py_join :: "string \<Rightarrow> string list \<Rightarrow> string" where
  "py_join sep [] = []"
| "py_join sep [x] = x"
| "py_join sep (x # y # ys) = x @ sep @ py_join sep (y # ys)"

definition get_setsebool_args :: "paths \<Rightarrow> (string, string) dict \<Rightarrow> string list" where
  "get_setsebool_args P changes =
     [SETSEBOOL P, ''-P''] @ map (\<lambda>(k, v). k @ ''='' @ v) changes"

text \<open>
  The body of the \<open>try\<close> for one setting: query the boolean, hand the original state to
  \<open>backup_func\<close> when there is one, and tell whether the state has to change.
\<close>

definition query_setting ::
  "env \<Rightarrow> paths \<Rightarrow> bool \<Rightarrow> string \<Rightarrow> string \<Rightarrow> world \<Rightarrow> (exn + bool) \<times> world" where
  "query_setting E P has_backup_func setting state w =
     (case ipautil_run E [GETSEBOOL P, setting] w of
        (Inl e, w1) \<Rightarrow> (Inl e, w1)
      | (Inr out, w1) \<Rightarrow>
          (case py_index (py_split out) 2 of
             Inl e \<Rightarrow> (Inl e, w1)
           | Inr original_state \<Rightarrow>
               (if has_backup_func then
                  (case faults E (BackupFunc setting original_state) of
                     Some e \<Rightarrow> (Inl e, record_event (BackupFunc setting original_state) w1)
                   | None \<Rightarrow>
                       (Inr (original_state \<noteq> state),
                        record_event (BackupFunc setting original_state) w1))
                else (Inr (original_state \<noteq> state), w1))))"

text \<open>
  The loop over \<open>required_settings.items()\<close>, with \<open>updated_vars\<close> and \<open>failed_vars\<close>.
  Only \<open>CalledProcessError\<close> is caught.
\<close>

fun query_settings ::
  "env \<Rightarrow> paths \<Rightarrow> bool \<Rightarrow> (string, string option) dict
     \<Rightarrow> (string, string) dict \<Rightarrow> (string, string) dict \<Rightarrow> world
     \<Rightarrow> (exn + (string, string) dict \<times> (string, string) dict) \<times> world" where
  "query_settings E P bf [] updated_vars failed_vars w = (Inr (updated_vars, failed_vars), w)"
| "query_settings E P bf ((setting, state) # rest) updated_vars failed_vars w =
     (case state of
        None \<Rightarrow> query_settings E P bf rest updated_vars failed_vars w
      | Some st \<Rightarrow>
          (case query_setting E P bf setting st w of
             (Inl CalledProcessError, w1) \<Rightarrow>
               query_settings E P bf rest updated_vars (dict_set failed_vars setting st) w1
           | (Inl e, w1) \<Rightarrow> (Inl e, w1)
           | (Inr True, w1) \<Rightarrow>
               query_settings E P bf rest (dict_set updated_vars setting st) failed_vars w1
           | (Inr False, w1) \<Rightarrow> query_settings E P bf rest updated_vars failed_vars w1))"

definition set_selinux_booleans ::
  "env \<Rightarrow> paths \<Rightarrow> (string, string option) dict \<Rightarrow> bool \<Rightarrow> world \<Rightarrow> (exn + bool) \<times> world" where
  "set_selinux_booleans E P required_settings has_backup_func w =
     (case is_selinux_enabled E P w of
        (Inl e, w1) \<Rightarrow> (Inl e, w1)
      | (Inr False, w1) \<Rightarrow> (Inr False, w1)
      | (Inr True, w1) \<Rightarrow>
          (case query_settings E P has_backup_func required_settings [] [] w1 of
             (Inl e, w2) \<Rightarrow> (Inl e, w2)
           | (Inr (updated_vars, failed_vars), w2) \<Rightarrow>
               (let (failed_vars', w3) =
                      (if updated_vars \<noteq> [] then
                         (case ipautil_run E (get_setsebool_args P updated_vars) w2 of
                            (Inl CalledProcessError, w3) \<Rightarrow>
                              (Inr (dict_update failed_vars updated_vars), w3)
                          | (Inl e, w3) \<Rightarrow> (Inl e, w3)
                          | (Inr out, w3) \<Rightarrow> (Inr failed_vars, w3))
                       else (Inr failed_vars, w2))
                in (case failed_vars' of
                      Inl e \<Rightarrow> (Inl e, w3)
                    | Inr failed \<Rightarrow>
                        (if failed \<noteq> [] then
                           (Inl (SetseboolError failed
                                   (py_join '' '' (get_setsebool_args P failed))), w3)
                         else (Inr True, w3))))))"

text \<open>
  What the properties of \<open>set_selinux_booleans\<close> speak of: a query that succeeds (the
  output has a third word, the current state, and \<open>backup_func\<close> accepts it), and the
  settings whose required state differs from the current one, in the order of the
  dictionary.
\<close>

definition query_ok :: "env \<Rightarrow> paths \<Rightarrow> bool \<Rightarrow> (string \<Rightarrow> string) \<Rightarrow> string \<Rightarrow> bool" where
  "query_ok E P has_backup_func current k =
     (case run E [GETSEBOOL P, k] of
        Inl e \<Rightarrow> False
      | Inr out \<Rightarrow>
          py_index (py_split out) 2 = Inr (current k) \<and>
          (has_backup_func \<longrightarrow> faults E (BackupFunc k (current k)) = None))"

fun changes :: "(string \<Rightarrow> string) \<Rightarrow> (string, string option) dict \<Rightarrow> (string, string) dict" where
  "changes current [] = []"
| "changes current ((k, None) # rs) = changes current rs"
| "changes current ((k, Some v) # rs) =
     (if current k \<noteq> v then (k, v) # changes current rs else changes current rs)"


subsection \<open>Sequencing\<close>

text \<open>A step that raised ends the task; the world keeps what was done until then.\<close>

definition and_then ::
  "(exn + 'a) \<times> world \<Rightarrow> ('a \<Rightarrow> world \<Rightarrow> (exn + 'b) \<times> world) \<Rightarrow> (exn + 'b) \<times> world" where
  "and_then m f = (case m of (Inl e, w) \<Rightarrow> (Inl e, w) | (Inr x, w) \<Rightarrow> f x w)"

definition newline :: string where
  "newline = [CHR 0x0A]"

text \<open>\<open>needle in haystack\<close> on strings.\<close>

fun contains :: "string \<Rightarrow> string \<Rightarrow> bool" where
  "contains needle [] = (needle = [])"
| "contains needle (c # cs) =
     (take (length needle) (c # cs) = needle \<or> contains needle cs)"

text \<open>\<open>text.split('\n')\<close>: the lines of a text.\<close>

fun split_lines :: "string \<Rightarrow> string list" where
  "split_lines [] = [[]]"
| "split_lines (c # cs) =
     (if c = CHR 0x0A then [] # split_lines cs
      else (case split_lines cs of
              [] \<Rightarrow> [[c]]
            | l # ls \<Rightarrow> (c # l) # ls))"

subsection \<open>The DNS resolver\<close>

text \<open>
  The arguments of \<open>configure_dns_resolver\<close> are checked at run time, so they are Python
  values: a list, or something else.
\<close>

datatype pyval = PyList "string list" | PyTuple "string list" | PyStr string | PyNone

fun truthy :: "pyval \<Rightarrow> bool" where
  "truthy (PyList xs) = (xs \<noteq> [])"
| "truthy (PyTuple xs) = (xs \<noteq> [])"
| "truthy (PyStr s) = (s \<noteq> [])"
| "truthy PyNone = False"

fun isinstance_list :: "pyval \<Rightarrow> bool" where
  "isinstance_list (PyList xs) = True"
| "isinstance_list v = False"

fun items_of :: "pyval \<Rightarrow> string list" where
  "items_of (PyList xs) = xs"
| "items_of (PyTuple xs) = xs"
| "items_of v = []"

text \<open>
  The method of the base class, \<open>super().configure_dns_resolver\<close>, and the service object
  \<open>knownservices['NetworkManager']\<close> belong to other modules: they are parameters, any
  function on the world that returns or raises.
\<close>

type_synonym base_configure_dns_resolver =
  "string list \<Rightarrow> string list \<Rightarrow> bool \<Rightarrow> bool \<Rightarrow> world \<Rightarrow> (exn + unit) \<times> world"

record service =
  is_enabled :: "world \<Rightarrow> (exn + bool) \<times> world"
  reload_or_restart :: "world \<Rightarrow> (exn + unit) \<times> world"

text \<open>
  \<open>NM_IPA_CONF.format(...)\<close>; the template starts with an empty line. The mode
  \<open>0o644\<close> of the files written below is \<open>0x1A4\<close>.
\<close>

definition NM_IPA_CONF :: "string \<Rightarrow> string \<Rightarrow> string \<Rightarrow> string" where
  "NM_IPA_CONF dnsprocessing searches servers =
     newline @
     ''# auto-generated by IPA installer'' @ newline @
     ''[main]'' @ newline @
     ''dns='' @ dnsprocessing @ newline @
     newline @
     ''[global-dns]'' @ newline @
     ''searches='' @ searches @ newline @
     newline @
     ''[global-dns-domain-*]'' @ newline @
     ''servers='' @ servers @ newline"

definition backup_resolv_conf :: "env \<Rightarrow> paths \<Rightarrow> bool \<Rightarrow> world \<Rightarrow> (exn + unit) \<times> world" where
  "backup_resolv_conf E P has_fstore w =
     (if has_fstore then
        and_then (fstore_has_file E (RESOLV_CONF P) w)
          (\<lambda>has w1. if \<not> has then fstore_backup_file E (RESOLV_CONF P) w1 else (Inr (), w1))
      else (Inr (), w))"

definition write_network_manager_conf ::
  "env \<Rightarrow> paths \<Rightarrow> service \<Rightarrow> string list \<Rightarrow> string list \<Rightarrow> bool \<Rightarrow> world
     \<Rightarrow> (exn + unit) \<times> world" where
  "write_network_manager_conf E P nm nameservers searchdomains resolve1_enabled w =
     (let dnsprocessing = (if resolve1_enabled then ''systemd-resolved'' else ''default'');
          cfg = NM_IPA_CONF dnsprocessing (py_join '','' searchdomains) (py_join '','' nameservers)
      in and_then (open_write E (NETWORK_MANAGER_IPA_CONF P) w)
           (\<lambda>u w1. and_then (os_fchmod E (NETWORK_MANAGER_IPA_CONF P) 0x1A4 w1)
              (\<lambda>u w2. and_then (file_write E (NETWORK_MANAGER_IPA_CONF P) cfg w2)
                 (\<lambda>u w3. reload_or_restart nm (record_event NMReloadOrRestart w3)))))"

definition resolv_conf_lines :: "string list \<Rightarrow> string list \<Rightarrow> string list" where
  "resolv_conf_lines nameservers searchdomains =
     [''# auto-generated by IPA installer'', ''search '' @ py_join '' '' searchdomains] @
     map (\<lambda>nameserver. ''nameserver '' @ nameserver) nameservers"

definition write_resolv_conf ::
  "env \<Rightarrow> paths \<Rightarrow> string list \<Rightarrow> string list \<Rightarrow> world \<Rightarrow> (exn + unit) \<times> world" where
  "write_resolv_conf E P nameservers searchdomains w =
     and_then (open_write E (RESOLV_CONF P) w)
       (\<lambda>u w1. file_write E (RESOLV_CONF P)
                  (py_join newline (resolv_conf_lines nameservers searchdomains)) w1)"

definition configure_dns_resolver ::
  "env \<Rightarrow> paths \<Rightarrow> base_configure_dns_resolver \<Rightarrow> service \<Rightarrow> pyval \<Rightarrow> pyval \<Rightarrow> bool \<Rightarrow> bool
     \<Rightarrow> world \<Rightarrow> (exn + unit) \<times> world" where
  "configure_dns_resolver E P super nm nameservers searchdomains resolve1_enabled has_fstore w =
     (if \<not> (truthy nameservers \<and> isinstance_list nameservers) then (Inl AssertionError, w)
      else if \<not> (truthy searchdomains \<and> isinstance_list searchdomains) then
        (Inl AssertionError, w)
      else
        and_then
          (super (items_of nameservers) (items_of searchdomains) resolve1_enabled has_fstore
             (record_event
                (SuperConfigureDnsResolver (items_of nameservers) (items_of searchdomains)
                   resolve1_enabled has_fstore) w))
          (\<lambda>u w1. and_then (backup_resolv_conf E P has_fstore w1)
             (\<lambda>u w2. and_then (is_enabled nm (record_event NMIsEnabled w2))
                (\<lambda>nm_enabled w3.
                   and_then
                     (if nm_enabled then
                        write_network_manager_conf E P nm (items_of nameservers)
                          (items_of searchdomains) resolve1_enabled w3
                      else (Inr (), w3))
                     (\<lambda>u w4.
                        if \<not> resolve1_enabled \<and> \<not> nm_enabled then
                          write_resolv_conf E P (items_of nameservers)
                            (items_of searchdomains) w4
                        else (Inr (), w4))))))"

subsection \<open>The httpd service and the PKCS#11 modules\<close>

definition systemd_daemon_reload :: "env \<Rightarrow> paths \<Rightarrow> world \<Rightarrow> (exn + unit) \<times> world" where
  "systemd_daemon_reload E P w =
     and_then (ipautil_run E [SYSTEMCTL P, ''--system'', ''daemon-reload''] w)
       (\<lambda>out w1. (Inr (), w1))"

text \<open>
  \<open>remove_httpd_service_ipa_conf\<close>: every \<open>OSError\<close> of the \<open>unlink\<close> is caught; the
  two branches of the handler differ in what they log, and both return.
\<close>

definition remove_httpd_service_ipa_conf :: "env \<Rightarrow> paths \<Rightarrow> world \<Rightarrow> (exn + unit) \<times> world" where
  "remove_httpd_service_ipa_conf E P w =
     (case os_unlink E (SYSTEMD_SYSTEM_HTTPD_IPA_CONF P) w of
        (Inl (OSError errno), w1) \<Rightarrow> (if errno = ENOENT then (Inr (), w1) else (Inr (), w1))
      | (Inl e, w1) \<Rightarrow> (Inl e, w1)
      | (Inr u, w1) \<Rightarrow> systemd_daemon_reload E P w1)"

text \<open>\<open>PKCS11_MODULES\<close>: base file name, module, list of "disabled-in".\<close>

definition PKCS11_MODULES :: "paths \<Rightarrow> (string \<times> string \<times> string list) list" where
  "PKCS11_MODULES P = [(''softhsm2'', LIBSOFTHSM2_SO P, [''p11-kit-proxy''])]"

definition module_filename :: "paths \<Rightarrow> string \<Rightarrow> string" where
  "module_filename P name = os_path_join (ETC_PKCS11_MODULES_DIR P) (name @ ''.module'')"

text \<open>
  The backup of an existing module file: \<open>not is_ipa_file and not fstore.has_file(filename)\<close>
  asks the store only when the file is not one of IPA's.
\<close>

definition backup_existing_module :: "env \<Rightarrow> string \<Rightarrow> world \<Rightarrow> (exn + unit) \<times> world" where
  "backup_existing_module E filename w =
     (case os_path_isfile filename w of
        (False, w1) \<Rightarrow> (Inr (), w1)
      | (True, w1) \<Rightarrow>
          and_then (read_file E filename w1)
            (\<lambda>content w2.
               let is_ipa_file = contains ''IPA'' content
               in if is_ipa_file then (Inr (), w2)
                  else and_then (fstore_has_file E filename w2)
                         (\<lambda>has w3. if has then (Inr (), w3)
                                   else fstore_backup_file E filename w3)))"

definition write_module ::
  "env \<Rightarrow> string \<Rightarrow> string \<Rightarrow> string list \<Rightarrow> world \<Rightarrow> (exn + unit) \<times> world" where
  "write_module E filename module disabled_in w =
     and_then (open_write E filename w)
       (\<lambda>u w1. and_then (file_write E filename (''# created by IPA installer'' @ newline) w1)
          (\<lambda>u w2. and_then (file_write E filename (''module: '' @ module @ newline) w2)
             (\<lambda>u w3. and_then
                (file_write E filename
                   (''disable-in: '' @ py_join '', '' disabled_in @ newline) w3)
                (\<lambda>u w4. os_fchmod E filename 0x1A4 w4))))"

fun configure_modules ::
  "env \<Rightarrow> paths \<Rightarrow> (string \<times> string \<times> string list) list \<Rightarrow> string list \<Rightarrow> world
     \<Rightarrow> (exn + string list) \<times> world" where
  "configure_modules E P [] filenames w = (Inr filenames, w)"
| "configure_modules E P ((name, module, disabled_in) # rest) filenames w =
     and_then (backup_existing_module E (module_filename P name) w)
       (\<lambda>u w1. and_then (write_module E (module_filename P name) module disabled_in w1)
          (\<lambda>u w2. and_then (restore_context E P (module_filename P name) False w2)
             (\<lambda>u w3. configure_modules E P rest (filenames @ [module_filename P name]) w3)))"

definition configure_pkcs11_modules :: "env \<Rightarrow> paths \<Rightarrow> world \<Rightarrow> (exn + string list) \<times> world" where
  "configure_pkcs11_modules E P w = configure_modules E P (PKCS11_MODULES P) [] w"

text \<open>
  \<open>restore_pkcs11_modules\<close>: \<open>except OSError: pass\<close> around the \<open>unlink\<close>; the file
  name is reported only when the \<open>unlink\<close> succeeded.
\<close>

fun restore_modules ::
  "env \<Rightarrow> paths \<Rightarrow> (string \<times> string \<times> string list) list \<Rightarrow> string list \<Rightarrow> world
     \<Rightarrow> (exn + string list) \<times> world" where
  "restore_modules E P [] filenames w = (Inr filenames, w)"
| "restore_modules E P ((name, module, disabled_in) # rest) filenames w =
     and_then
       (case os_unlink E (module_filename P name) w of
          (Inl (OSError errno), w1) \<Rightarrow> (Inr filenames, w1)
        | (Inl e, w1) \<Rightarrow> (Inl e, w1)
        | (Inr u, w1) \<Rightarrow> (Inr (filenames @ [module_filename P name]), w1))
       (\<lambda>filenames' w1.
          and_then (fstore_has_file E (module_filename P name) w1)
            (\<lambda>has w2.
               and_then
                 (if has then fstore_restore_file E (module_filename P name) w2 else (Inr (), w2))
                 (\<lambda>u w3. restore_modules E P rest filenames' w3)))"

definition restore_pkcs11_modules :: "env \<Rightarrow> paths \<Rightarrow> world \<Rightarrow> (exn + string list) \<times> world" where
  "restore_pkcs11_modules E P w = restore_modules E P (PKCS11_MODULES P) [] w"

subsection \<open>The trust-object store\<close>






text \<open>
  The two kinds of stanza the writer emits, with the values it substitutes into them, and
  their text. \<open>trusted\<close> is \<open>Some True\<close>, \<open>Some False\<close> or neither.
\<close>

datatype p11_object =
    CertificateObject string string string string string "bool option" string
  | ExtensionObject string string string







text \<open>The number of extension stanzas keyed by a public-key info among the stanzas.\<close>

fun keyed_by :: "string \<Rightarrow> p11_object \<Rightarrow> bool" where
  "keyed_by q (ExtensionObject label public_key_info v) = (public_key_info = q)"
| "keyed_by q (CertificateObject label subject issuer serial_number public_key_info trusted pem) =
     False"

definition eku_count :: "string \<Rightarrow> p11_object list \<Rightarrow> nat" where
  "eku_count q objs = length (filter (keyed_by q) objs)"



text \<open>
  What the properties of \<open>configure_pkcs11_modules\<close> speak of: the number of times the
  backup store was asked to back up a file, and the condition under which the task asks it
  (the file is there and can be read, holds no IPA marker, and the store, which answers,
  does not hold it yet).
\<close>

definition backups :: "string \<Rightarrow> world \<Rightarrow> nat" where
  "backups f w = count_list (trace w) (FstoreBackupFile f)"

definition backup_needed :: "env \<Rightarrow> string \<Rightarrow> world \<Rightarrow> bool" where
  "backup_needed E f w =
     (case files w f of
        None \<Rightarrow> False
      | Some content \<Rightarrow>
          faults E (OpenRead f) = None \<and> \<not> contains ''IPA'' content \<and>
          faults E (FstoreHasFile f) = None \<and> stored w f = None)"

subsection \<open>A concrete host\<close>

text \<open>
  Paths, an empty world and two environments, for the concrete instances of the properties:
  one host with SELinux on, where \<open>getsebool\<close> does not know \<open>httpd_manage_ipa\<close>,
  and one with SELinux off.
\<close>

definition example_paths :: paths where
  "example_paths =
     \<lparr>SELINUXENABLED = ''/usr/sbin/selinuxenabled'',
      GETSEBOOL = ''/usr/sbin/getsebool'',
      SETSEBOOL = ''/usr/sbin/setsebool'',
      SBIN_RESTORECON = ''/sbin/restorecon'',
      SYSTEMCTL = ''/bin/systemctl'',
      SYSTEMD_SYSTEM_HTTPD_IPA_CONF = ''/etc/systemd/system/httpd.service.d/ipa.conf'',
      RESOLV_CONF = ''/etc/resolv.conf'',
      NETWORK_MANAGER_IPA_CONF = ''/etc/NetworkManager/conf.d/zzz-ipa.conf'',
      ETC_PKCS11_MODULES_DIR = ''/etc/pkcs11/modules'',
      LIBSOFTHSM2_SO = ''/usr/lib64/pkcs11/libsofthsm2.so''\<rparr>"

definition empty_world :: world where
  "empty_world = \<lparr>files = Map.empty, modes = Map.empty, stored = Map.empty, trace = []\<rparr>"

definition selinux_on_env :: env where
  "selinux_on_env =
     \<lparr>run = (\<lambda>args.
         if args = [''/usr/sbin/selinuxenabled''] then Inr []
         else if args = [''/usr/sbin/getsebool'', ''httpd_can_network_connect''] then
           Inr ''httpd_can_network_connect --> off''
         else if args = [''/usr/sbin/getsebool'', ''httpd_run_ipa''] then
           Inr ''httpd_run_ipa --> on''
         else if args = [''/usr/sbin/setsebool'', ''-P'', ''httpd_can_network_connect=on'',
                         ''httpd_run_ipa=off''] then Inr []
         else Inl CalledProcessError),
      faults = (\<lambda>ev. None)\<rparr>"

definition selinux_off_env :: env where
  "selinux_off_env =
     \<lparr>run = (\<lambda>args. Inl CalledProcessError), faults = (\<lambda>ev. None)\<rparr>"

text \<open>
  A base method that does nothing, a NetworkManager that is not enabled, an environment in
  which nothing fails, and one in which every \<open>unlink\<close> is refused.
\<close>

definition base_noop :: base_configure_dns_resolver where
  "base_noop nameservers searchdomains resolve1_enabled has_fstore w = (Inr (), w)"

definition nm_disabled :: service where
  "nm_disabled = \<lparr>is_enabled = (\<lambda>w. (Inr False, w)), reload_or_restart = (\<lambda>w. (Inr (), w))\<rparr>"

definition no_faults_env :: env where
  "no_faults_env = \<lparr>run = (\<lambda>args. Inr []), faults = (\<lambda>ev. None)\<rparr>"

definition unlink_denied_env :: env where
  "unlink_denied_env =
     \<lparr>run = (\<lambda>args. Inr []),
      faults = (\<lambda>ev. case ev of Unlink p \<Rightarrow> Some (OSError EACCES) | _ \<Rightarrow> None)\<rparr>"

text \<open>A host on which an administrator wrote the module file of softhsm2.\<close>

definition user_module_world :: world where
  "user_module_world =
     \<lparr>files = [''/etc/pkcs11/modules/softhsm2.module'' \<mapsto>
                 ''module: /usr/lib64/pkcs11/libsofthsm2.so''],
      modes = Map.empty, stored = Map.empty, trace = []\<rparr>"




section \<open>Properties\<close>

subsection \<open>The version order\<close>

lemma nat_cmp_refl: "nat_cmp n n = EQUAL"
  by (simp add: nat_cmp_def)




lemma nat_cmp_GREATER: "nat_cmp m n = GREATER \<longleftrightarrow> n < m"
  by (auto simp: nat_cmp_def)

lemma bytes_cmp_refl: "bytes_cmp xs xs = EQUAL"
  by (induction xs) (simp_all add: nat_cmp_refl)




lemma segment_cmp_refl: "segment_cmp s s = EQUAL"
  by (cases s) (simp_all add: nat_cmp_refl bytes_cmp_refl)






lemma segments_cmp_refl: "segments_cmp xs xs = EQUAL"
  by (induction xs) (simp_all add: segment_cmp_refl)




lemma rpmvercmp_zero: "(rpmvercmp a b = 0) = (compare a b = EQUAL)"
  by (cases "compare a b") (simp_all add: rpmvercmp_def)

lemma rpmvercmp_neg: "(rpmvercmp a b < 0) = (compare a b = LESS)"
  by (cases "compare a b") (simp_all add: rpmvercmp_def)

lemma IPAVersion_rpmvercmp_loaded:
  "cache = None \<or> cache = Some rpmvercmp \<Longrightarrow>
   IPAVersion_rpmvercmp (Inr rpmvercmp) cache a b =
     (Inr (rpmvercmp (c_char_p a) (c_char_p b)), Some rpmvercmp)"
  by (auto simp: IPAVersion_rpmvercmp_def)

lemma version_compare_loaded:
  assumes "cache = None \<or> cache = Some rpmvercmp"
  shows "version_compare (Inr rpmvercmp) cache va vb =
     (Inr (compare (c_char_p (version_bytes va)) (c_char_p (version_bytes vb))), Some rpmvercmp)"
proof -
  let ?a = "c_char_p (version_bytes va)" and ?b = "c_char_p (version_bytes vb)"
  have eq: "IPAVersion_eq (Inr rpmvercmp) cache va vb = (Inr (compare ?a ?b = EQUAL), Some rpmvercmp)"
    using assms by (simp add: IPAVersion_eq_def IPAVersion_rpmvercmp_loaded rpmvercmp_zero)
  have lt: "IPAVersion_lt (Inr rpmvercmp) (Some rpmvercmp) va vb = (Inr (compare ?a ?b = LESS), Some rpmvercmp)"
    by (simp add: IPAVersion_lt_def IPAVersion_rpmvercmp_loaded rpmvercmp_neg)
  show ?thesis
    by (cases "compare ?a ?b") (simp_all add: version_compare_def eq lt)
qed

lemma compare_versions_loaded:
  assumes "cache = None \<or> cache = Some rpmvercmp"
    and "encode_utf8 a = Inr ba" and "encode_utf8 b = Inr bb"
  shows "compare_versions (Inr rpmvercmp) cache a b =
     (Inr (compare (c_char_p ba) (c_char_p bb)), Some rpmvercmp)"
  using assms(2,3)
  by (simp add: compare_versions_def parse_ipa_version_def IPAVersion_init_def
      version_compare_loaded [OF assms(1)])









lemma segments_separator: "is_separator c \<Longrightarrow> segments (c # cs) = segments cs"
  by (simp add: is_separator_def)

lemma segments_dropWhile_separator: "segments (dropWhile is_separator s) = segments s"
  by (induction s) (simp_all add: segments_separator del: segments.simps)

lemma segments_first_alnum:
  "risdigit c \<or> risalpha c \<Longrightarrow> \<exists>t ts. segments (c # cs) = t # ts \<and> t \<noteq> TildeMarker"
  by auto

lemma segments_first_tilde:
  "is_tilde c \<Longrightarrow> \<exists>ts. segments (c # cs) = TildeMarker # ts"
  by (auto simp: is_tilde_def risdigit_def risalpha_def)

lemma run_append_separator:
  assumes "\<not> P x"
  shows "takeWhile P (p @ x # q) = takeWhile P p"
    and "dropWhile P (p @ x # q) = dropWhile P p @ x # q"
  using assms by (induction p) simp_all

lemma segments_swap_separator:
  assumes "is_separator x" and "is_separator y"
  shows "segments (p @ x # q) = segments (p @ y # q)"
proof (induction p rule: segments.induct)
  case 1
  show ?case using assms by (simp add: segments_separator del: segments.simps)
next
  case (2 c cs)
  have x: "\<not> risdigit x" "\<not> risalpha x" and y: "\<not> risdigit y" "\<not> risalpha y"
    using assms by (simp_all add: is_separator_def)
  show ?case
  proof (cases "risdigit c")
    case True
    then show ?thesis
      using "2.IH"(1) by (simp add: run_append_separator x y)
  next
    case d: False
    show ?thesis
    proof (cases "risalpha c")
      case True
      then show ?thesis
        using d "2.IH"(2) by (simp add: run_append_separator x y)
    next
      case a: False
      show ?thesis
      proof (cases "is_tilde c")
        case True
        then show ?thesis using d a "2.IH"(3) by simp
      next
        case False
        then show ?thesis using d a "2.IH"(4) by simp
      qed
    qed
  qed
qed




text \<open>
  C2. The comparator on the inputs the specification lists, as the vendor comparison of
  the two byte strings and as the comparison of the two version strings through
  \<open>IPAVersion\<close>.
\<close>

theorem version_examples:
  "compare ''1.0'' ''1.0.1'' = LESS \<and>
   compare ''1.2-1'' ''1.2-2'' = LESS \<and>
   compare ''1.0~rc1'' ''1.0'' = LESS \<and>
   compare ''2.0'' ''1.9.9'' = GREATER \<and>
   fst (compare_versions (Inr rpmvercmp) None (pystr ''1.0'') (pystr ''1.0.1'')) = Inr LESS \<and>
   fst (compare_versions (Inr rpmvercmp) None (pystr ''1.2-1'') (pystr ''1.2-2'')) = Inr LESS \<and>
   fst (compare_versions (Inr rpmvercmp) None (pystr ''1.0~rc1'') (pystr ''1.0'')) = Inr LESS \<and>
   fst (compare_versions (Inr rpmvercmp) None (pystr ''2.0'') (pystr ''1.9.9'')) = Inr GREATER"
proof -
  have e: "encode_utf8 (pystr ''1.0'') = Inr ''1.0''"
    "encode_utf8 (pystr ''1.0.1'') = Inr ''1.0.1''"
    "encode_utf8 (pystr ''1.2-1'') = Inr ''1.2-1''"
    "encode_utf8 (pystr ''1.2-2'') = Inr ''1.2-2''"
    "encode_utf8 (pystr ''1.0~rc1'') = Inr ''1.0~rc1''"
    "encode_utf8 (pystr ''2.0'') = Inr ''2.0''"
    "encode_utf8 (pystr ''1.9.9'') = Inr ''1.9.9''"
    by code_simp+
  have c: "c_char_p ''1.0'' = ''1.0''" "c_char_p ''1.0.1'' = ''1.0.1''"
    "c_char_p ''1.2-1'' = ''1.2-1''" "c_char_p ''1.2-2'' = ''1.2-2''"
    "c_char_p ''1.0~rc1'' = ''1.0~rc1''" "c_char_p ''2.0'' = ''2.0''"
    "c_char_p ''1.9.9'' = ''1.9.9''"
    by (simp_all add: c_char_p_def)
  have 1: "compare ''1.0'' ''1.0.1'' = LESS"
    by (simp add: compare_def risdigit_def risalpha_def is_tilde_def numeric_value_def
        digit_value_def nat_cmp_def)
  have 2: "compare ''1.2-1'' ''1.2-2'' = LESS"
    by (simp add: compare_def risdigit_def risalpha_def is_tilde_def numeric_value_def
        digit_value_def nat_cmp_def)
  have 3: "compare ''1.0~rc1'' ''1.0'' = LESS"
    by (simp add: compare_def risdigit_def risalpha_def is_tilde_def numeric_value_def
        digit_value_def nat_cmp_def)
  have 4: "compare ''2.0'' ''1.9.9'' = GREATER"
    by (simp add: compare_def risdigit_def risalpha_def is_tilde_def numeric_value_def
        digit_value_def nat_cmp_def)
  note cv = compare_versions_loaded [of None, simplified]
  show ?thesis
    by (simp add: cv [OF e(1) e(2)] cv [OF e(3) e(4)] cv [OF e(5) e(1)] cv [OF e(6) e(7)]
        c 1 2 3 4)
qed

text \<open>
  The edge cases of the vendor comparison itself, on the bytes it reads. The empty string
  is less than a string whose first character that is not a separator is a digit or a
  letter, greater than one whose first such character is a tilde, and equal to a string of
  separators only. Two strings that differ in one separator compare as equal, and compare
  alike with every other string.
\<close>

lemma compare_edge_cases:
  "(dropWhile is_separator s = c # rest \<and> (risdigit c \<or> risalpha c) \<longrightarrow> compare [] s = LESS) \<and>
   (dropWhile is_separator s = c # rest \<and> is_tilde c \<longrightarrow> compare [] s = GREATER) \<and>
   (dropWhile is_separator s = [] \<longrightarrow> compare [] s = EQUAL) \<and>
   (is_separator x \<and> is_separator y \<longrightarrow>
      compare (p @ x # q) (p @ y # q) = EQUAL \<and> compare (p @ x # q) t = compare (p @ y # q) t)"
proof (intro conjI impI)
  assume h: "dropWhile is_separator s = c # rest \<and> (risdigit c \<or> risalpha c)"
  then obtain t ts where "segments (c # rest) = t # ts" and "t \<noteq> TildeMarker"
    using segments_first_alnum [of c rest] by blast
  then have "segments s = t # ts"
    using h segments_dropWhile_separator [of s] by simp
  then show "compare [] s = LESS"
    using \<open>t \<noteq> TildeMarker\<close> by (simp add: compare_def)
next
  assume h: "dropWhile is_separator s = c # rest \<and> is_tilde c"
  then obtain ts where "segments (c # rest) = TildeMarker # ts"
    using segments_first_tilde [of c rest] by blast
  then have "segments s = TildeMarker # ts"
    using h segments_dropWhile_separator [of s] by simp
  then show "compare [] s = GREATER"
    by (simp add: compare_def)
next
  assume h: "dropWhile is_separator s = []"
  have "segments s = segments (dropWhile is_separator s)"
    by (rule segments_dropWhile_separator [symmetric])
  then have "segments s = []"
    by (simp only: h segments.simps)
  then show "compare [] s = EQUAL"
    by (simp add: compare_def)
next
  assume "is_separator x \<and> is_separator y"
  then have "segments (p @ x # q) = segments (p @ y # q)"
    by (simp add: segments_swap_separator)
  then show "compare (p @ x # q) (p @ y # q) = EQUAL"
    by (simp add: compare_def segments_cmp_refl)
next
  assume "is_separator x \<and> is_separator y"
  then have "segments (p @ x # q) = segments (p @ y # q)"
    by (simp add: segments_swap_separator)
  then show "compare (p @ x # q) t = compare (p @ y # q) t"
    by (simp add: compare_def)
qed

text \<open>
  What \<open>IPAVersion._rpmvercmp\<close> adds to it: the UTF-8 encoding by the caller, and the
  reading of the bytes as C strings. A block of separator bytes, none of them NUL, can be
  exchanged for another without changing the segments the routine sees.
\<close>

lemma c_char_p_append:
  "c_char_p (a @ b) = (if CHR 0x00 \<in> set a then c_char_p a else a @ c_char_p b)"
  by (auto simp: c_char_p_def takeWhile_append)

lemma segments_drop_separator:
  assumes "is_separator x" and "is_separator s"
  shows "segments (p @ x # s # r) = segments (p @ x # r)"
proof (induction p rule: segments.induct)
  case 1
  show ?case using assms by (simp add: segments_separator del: segments.simps)
next
  case (2 c cs)
  have x: "\<not> risdigit x" "\<not> risalpha x"
    using assms by (simp_all add: is_separator_def)
  show ?case
  proof (cases "risdigit c")
    case True
    then show ?thesis
      using "2.IH"(1) by (simp add: run_append_separator x)
  next
    case d: False
    show ?thesis
    proof (cases "risalpha c")
      case True
      then show ?thesis
        using d "2.IH"(2) by (simp add: run_append_separator x)
    next
      case a: False
      show ?thesis
      proof (cases "is_tilde c")
        case True
        then show ?thesis using d a "2.IH"(3) by simp
      next
        case False
        then show ?thesis using d a "2.IH"(4) by simp
      qed
    qed
  qed
qed

lemma segments_separator_block:
  assumes "is_separator x"
  shows "list_all is_separator xs \<Longrightarrow> segments (p @ x # xs @ q) = segments (p @ x # q)"
proof (induction xs)
  case Nil
  then show ?case by simp
next
  case (Cons s xs)
  then have s: "is_separator s" and rest: "list_all is_separator xs" by simp_all
  have "segments (p @ x # (s # xs) @ q) = segments (p @ x # s # (xs @ q))" by simp
  also have "\<dots> = segments (p @ x # xs @ q)"
    by (rule segments_drop_separator [OF assms s])
  also have "\<dots> = segments (p @ x # q)"
    by (rule Cons.IH [OF rest])
  finally show ?case .
qed

lemma segments_separator_blocks:
  assumes "xs \<noteq> []" and "ys \<noteq> []"
    and "list_all is_separator xs" and "list_all is_separator ys"
  shows "segments (p @ xs @ q) = segments (p @ ys @ q)"
proof -
  obtain x xs' where xs: "xs = x # xs'" using assms(1) by (cases xs) auto
  obtain y ys' where ys: "ys = y # ys'" using assms(2) by (cases ys) auto
  have x: "is_separator x" "list_all is_separator xs'" using assms(3) xs by simp_all
  have y: "is_separator y" "list_all is_separator ys'" using assms(4) ys by simp_all
  have "segments (p @ xs @ q) = segments (p @ x # q)"
    using segments_separator_block [OF x] by (simp add: xs del: segments.simps)
  also have "\<dots> = segments (p @ y # q)"
    using x(1) y(1) by (rule segments_swap_separator)
  also have "\<dots> = segments (p @ ys @ q)"
    using segments_separator_block [OF y, of p q] by (simp add: ys del: segments.simps)
  finally show ?thesis .
qed

lemma separator_bytes:
  "list_all separator_byte xs \<Longrightarrow> list_all is_separator xs \<and> CHR 0x00 \<notin> set xs"
  by (induction xs) (auto simp: separator_byte_def)

lemma segments_c_char_p_blocks:
  assumes "xs \<noteq> []" and "ys \<noteq> []"
    and "list_all separator_byte xs" and "list_all separator_byte ys"
  shows "segments (c_char_p (p @ xs @ q)) = segments (c_char_p (p @ ys @ q))"
proof (cases "CHR 0x00 \<in> set p")
  case True
  then show ?thesis by (simp add: c_char_p_append)
next
  case False
  have xs: "list_all is_separator xs" "CHR 0x00 \<notin> set xs"
    using separator_bytes [OF assms(3)] by simp_all
  have ys: "list_all is_separator ys" "CHR 0x00 \<notin> set ys"
    using separator_bytes [OF assms(4)] by simp_all
  have "c_char_p (p @ xs @ q) = p @ xs @ c_char_p q"
    using False xs(2) by (simp add: c_char_p_append)
  moreover have "c_char_p (p @ ys @ q) = p @ ys @ c_char_p q"
    using False ys(2) by (simp add: c_char_p_append)
  ultimately show ?thesis
    using segments_separator_blocks [OF assms(1,2) xs(1) ys(1), of p "c_char_p q"]
    by simp
qed

lemma encode_utf8_append:
  "encode_utf8 (a @ b) =
     (case encode_utf8 a of
        Inl e \<Rightarrow> Inl e
      | Inr ba \<Rightarrow> (case encode_utf8 b of Inl e \<Rightarrow> Inl e | Inr bb \<Rightarrow> Inr (ba @ bb)))"
  by (induction a) (auto split: sum.splits)

lemma utf8_char_nonempty: "utf8_char x = Inr bs \<Longrightarrow> bs \<noteq> []"
  by (auto simp: utf8_char_def split: if_splits)

lemma encode_utf8_around:
  assumes "encode_utf8 vp = Inr bp" and "encode_utf8 vq = Inr bq" and "utf8_char x = Inr xs"
  shows "encode_utf8 (vp @ x # vq) = Inr (bp @ xs @ bq)"
  using assms by (simp add: encode_utf8_append)

lemma rpmvercmp_values:
  "compare a b = LESS \<Longrightarrow> rpmvercmp a b = - 1"
  "compare a b = EQUAL \<Longrightarrow> rpmvercmp a b = 0"
  "compare a b = GREATER \<Longrightarrow> rpmvercmp a b = 1"
  by (simp_all add: rpmvercmp_def)

lemma c_char_p_Nil: "c_char_p [] = []"
  by (simp add: c_char_p_def)

lemma encode_utf8_Nil: "encode_utf8 [] = Inr []"
  by simp

text \<open>
  C8, as stated, fails: the empty string is not less than every non-empty string. Against
  a string that starts with a tilde it is greater, through the vendor comparison and
  through \<open>IPAVersion\<close> alike; against a string that starts with a NUL byte it is equal,
  since \<open>IPAVersion._rpmvercmp\<close> hands the bytes over as C strings. For the same reason
  NUL, a separator by its character class, is not a split point there: the bytes 1, NUL, 2
  are read as 1, and compare less than \<open>1.2\<close>, not equal to it.
\<close>

theorem empty_version_not_least:
  "compare [] ''~'' = GREATER \<and>
   fst (compare_versions (Inr rpmvercmp) None (pystr []) (pystr ''~'')) = Inr GREATER \<and>
   is_separator (CHR 0x00) \<and>
   fst (IPAVersion_rpmvercmp (Inr rpmvercmp) None [] [CHR 0x00, CHR ''1'']) = Inr 0 \<and>
   fst (IPAVersion_rpmvercmp (Inr rpmvercmp) None [CHR ''1'', CHR 0x00, CHR ''2''] ''1.2'') =
     Inr (- 1) \<and>
   fst (compare_versions (Inr rpmvercmp) None [49, 0, 50] (pystr ''1.2'')) = Inr LESS"
proof -
  have e: "encode_utf8 (pystr []) = Inr []" "encode_utf8 (pystr ''~'') = Inr ''~''"
    "encode_utf8 [49, 0, 50] = Inr [CHR ''1'', CHR 0x00, CHR ''2'']"
    "encode_utf8 (pystr ''1.2'') = Inr ''1.2''"
    by code_simp+
  have c: "c_char_p [] = []" "c_char_p ''~'' = ''~''"
    "c_char_p [CHR 0x00, CHR ''1''] = []"
    "c_char_p [CHR ''1'', CHR 0x00, CHR ''2''] = ''1''" "c_char_p ''1.2'' = ''1.2''"
    by (simp_all add: c_char_p_def)
  have 1: "compare [] ''~'' = GREATER"
    by (simp add: compare_def risdigit_def risalpha_def is_tilde_def)
  have 2: "compare ''1'' ''1.2'' = LESS"
    by code_simp
  have 3: "compare [] [] = EQUAL"
    by (simp add: compare_def)
  have 4: "is_separator (CHR 0x00)"
    by (simp add: is_separator_def risdigit_def risalpha_def is_tilde_def)
  note raw = IPAVersion_rpmvercmp_loaded [of None, simplified]
  note cv = compare_versions_loaded [of None, simplified]
  show ?thesis
    by (simp add: cv [OF e(1) e(2)] cv [OF e(3) e(4)] raw c 1 2 3 4 rpmvercmp_values)
qed

text \<open>
  C8, amended, for the comparator as \<open>IPAVersion._rpmvercmp\<close> calls it (each byte string
  is read up to its first NUL byte) and as \<open>IPAVersion\<close> compares two version strings
  (each encoded as UTF-8 first), once the native routine has loaded. The empty string
  compares less than any string whose first character that is not a separator, before any
  NUL, is a digit or a letter; it compares greater than a string whose first such
  character is a tilde, and equal to a string with nothing but separators before its first
  NUL. Two strings that differ only in a block of separators other than NUL at one
  position (\<open>.\<close> against \<open>_\<close>) compare as equal, and compare alike with every other
  string.
\<close>

theorem version_edge_cases:
  assumes cache: "cache = None \<or> cache = Some rpmvercmp"
  shows
   "(dropWhile is_separator (c_char_p s) = c # rest \<and> (risdigit c \<or> risalpha c) \<longrightarrow>
       fst (IPAVersion_rpmvercmp (Inr rpmvercmp) cache [] s) = Inr (- 1) \<and>
       (encode_utf8 v = Inr s \<longrightarrow>
          fst (compare_versions (Inr rpmvercmp) cache [] v) = Inr LESS)) \<and>
    (dropWhile is_separator (c_char_p s) = c # rest \<and> is_tilde c \<longrightarrow>
       fst (IPAVersion_rpmvercmp (Inr rpmvercmp) cache [] s) = Inr 1 \<and>
       (encode_utf8 v = Inr s \<longrightarrow>
          fst (compare_versions (Inr rpmvercmp) cache [] v) = Inr GREATER)) \<and>
    (dropWhile is_separator (c_char_p s) = [] \<longrightarrow>
       fst (IPAVersion_rpmvercmp (Inr rpmvercmp) cache [] s) = Inr 0 \<and>
       (encode_utf8 v = Inr s \<longrightarrow>
          fst (compare_versions (Inr rpmvercmp) cache [] v) = Inr EQUAL)) \<and>
    (xs \<noteq> [] \<and> ys \<noteq> [] \<and> list_all separator_byte xs \<and> list_all separator_byte ys \<longrightarrow>
       fst (IPAVersion_rpmvercmp (Inr rpmvercmp) cache (p @ xs @ q) (p @ ys @ q)) = Inr 0 \<and>
       fst (IPAVersion_rpmvercmp (Inr rpmvercmp) cache (p @ xs @ q) t) =
         fst (IPAVersion_rpmvercmp (Inr rpmvercmp) cache (p @ ys @ q) t)) \<and>
    (separator_char x \<and> separator_char y \<and>
     encode_utf8 vp = Inr bp \<and> encode_utf8 vq = Inr bq \<longrightarrow>
       fst (compare_versions (Inr rpmvercmp) cache (vp @ x # vq) (vp @ y # vq)) = Inr EQUAL \<and>
       (encode_utf8 vt = Inr bt \<longrightarrow>
          fst (compare_versions (Inr rpmvercmp) cache (vp @ x # vq) vt) =
            fst (compare_versions (Inr rpmvercmp) cache (vp @ y # vq) vt)))"
proof -
  note raw = IPAVersion_rpmvercmp_loaded [OF cache]
  note cv = compare_versions_loaded [OF cache]
  have less: "fst (IPAVersion_rpmvercmp (Inr rpmvercmp) cache [] s) = Inr (- 1) \<and>
       (encode_utf8 v = Inr s \<longrightarrow>
          fst (compare_versions (Inr rpmvercmp) cache [] v) = Inr LESS)"
    if "dropWhile is_separator (c_char_p s) = c # rest \<and> (risdigit c \<or> risalpha c)"
  proof -
    from that have "compare [] (c_char_p s) = LESS"
      using compare_edge_cases [of "c_char_p s" c rest] by blast
    then show ?thesis
      by (auto simp: raw c_char_p_Nil rpmvercmp_values cv [OF encode_utf8_Nil])
  qed
  have greater: "fst (IPAVersion_rpmvercmp (Inr rpmvercmp) cache [] s) = Inr 1 \<and>
       (encode_utf8 v = Inr s \<longrightarrow>
          fst (compare_versions (Inr rpmvercmp) cache [] v) = Inr GREATER)"
    if "dropWhile is_separator (c_char_p s) = c # rest \<and> is_tilde c"
  proof -
    from that have "compare [] (c_char_p s) = GREATER"
      using compare_edge_cases [of "c_char_p s" c rest] by blast
    then show ?thesis
      by (auto simp: raw c_char_p_Nil rpmvercmp_values cv [OF encode_utf8_Nil])
  qed
  have equal: "fst (IPAVersion_rpmvercmp (Inr rpmvercmp) cache [] s) = Inr 0 \<and>
       (encode_utf8 v = Inr s \<longrightarrow>
          fst (compare_versions (Inr rpmvercmp) cache [] v) = Inr EQUAL)"
    if "dropWhile is_separator (c_char_p s) = []"
  proof -
    from that have "compare [] (c_char_p s) = EQUAL"
      using compare_edge_cases [of "c_char_p s"] by blast
    then show ?thesis
      by (auto simp: raw c_char_p_Nil rpmvercmp_values cv [OF encode_utf8_Nil])
  qed
  have bytes: "fst (IPAVersion_rpmvercmp (Inr rpmvercmp) cache (p @ xs @ q) (p @ ys @ q)) = Inr 0 \<and>
       fst (IPAVersion_rpmvercmp (Inr rpmvercmp) cache (p @ xs @ q) t) =
         fst (IPAVersion_rpmvercmp (Inr rpmvercmp) cache (p @ ys @ q) t)"
    if "xs \<noteq> [] \<and> ys \<noteq> [] \<and> list_all separator_byte xs \<and> list_all separator_byte ys"
  proof -
    from that have seg: "segments (c_char_p (p @ xs @ q)) = segments (c_char_p (p @ ys @ q))"
      by (simp add: segments_c_char_p_blocks)
    then have "compare (c_char_p (p @ xs @ q)) (c_char_p (p @ ys @ q)) = EQUAL"
      by (simp add: compare_def segments_cmp_refl)
    moreover have "rpmvercmp (c_char_p (p @ xs @ q)) (c_char_p t) =
        rpmvercmp (c_char_p (p @ ys @ q)) (c_char_p t)"
      using seg by (simp add: rpmvercmp_def compare_def)
    ultimately show ?thesis
      by (simp add: raw rpmvercmp_values)
  qed
  have chars: "fst (compare_versions (Inr rpmvercmp) cache (vp @ x # vq) (vp @ y # vq)) = Inr EQUAL \<and>
       (encode_utf8 vt = Inr bt \<longrightarrow>
          fst (compare_versions (Inr rpmvercmp) cache (vp @ x # vq) vt) =
            fst (compare_versions (Inr rpmvercmp) cache (vp @ y # vq) vt))"
    if h: "separator_char x \<and> separator_char y \<and>
      encode_utf8 vp = Inr bp \<and> encode_utf8 vq = Inr bq"
  proof -
    from h obtain bx where bx: "utf8_char x = Inr bx" "list_all separator_byte bx"
      by (auto simp: separator_char_def split: sum.splits)
    from h obtain by' where by': "utf8_char y = Inr by'" "list_all separator_byte by'"
      by (auto simp: separator_char_def split: sum.splits)
    have ne: "bx \<noteq> []" "by' \<noteq> []"
      using utf8_char_nonempty bx(1) by'(1) by blast+
    have ex: "encode_utf8 (vp @ x # vq) = Inr (bp @ bx @ bq)"
      using h bx(1) by (simp add: encode_utf8_around)
    have ey: "encode_utf8 (vp @ y # vq) = Inr (bp @ by' @ bq)"
      using h by'(1) by (simp add: encode_utf8_around)
    have seg: "segments (c_char_p (bp @ bx @ bq)) = segments (c_char_p (bp @ by' @ bq))"
      using ne bx(2) by'(2) by (rule segments_c_char_p_blocks)
    then have eq: "compare (c_char_p (bp @ bx @ bq)) (c_char_p (bp @ by' @ bq)) = EQUAL"
      by (simp add: compare_def segments_cmp_refl)
    have other: "compare (c_char_p (bp @ bx @ bq)) u = compare (c_char_p (bp @ by' @ bq)) u" for u
      using seg by (simp add: compare_def)
    have 1: "fst (compare_versions (Inr rpmvercmp) cache (vp @ x # vq) (vp @ y # vq)) = Inr EQUAL"
      by (simp add: cv [OF ex ey] eq)
    have 2: "fst (compare_versions (Inr rpmvercmp) cache (vp @ x # vq) vt) =
        fst (compare_versions (Inr rpmvercmp) cache (vp @ y # vq) vt)"
      if t: "encode_utf8 vt = Inr bt"
      by (simp add: cv [OF ex t] cv [OF ey t] other)
    from 1 2 show ?thesis by blast
  qed
  from less greater equal bytes chars show ?thesis by blast
qed

theorem version_edge_cases_witness:
  "fst (IPAVersion_rpmvercmp (Inr rpmvercmp) None [] ''1.0'') = Inr (- 1) \<and>
   fst (compare_versions (Inr rpmvercmp) None [] (pystr ''1.0'')) = Inr LESS \<and>
   fst (IPAVersion_rpmvercmp (Inr rpmvercmp) None [] ''~rc1'') = Inr 1 \<and>
   fst (compare_versions (Inr rpmvercmp) None [] (pystr ''~rc1'')) = Inr GREATER \<and>
   fst (IPAVersion_rpmvercmp (Inr rpmvercmp) None [] ''..'') = Inr 0 \<and>
   fst (compare_versions (Inr rpmvercmp) None [] (pystr ''..'')) = Inr EQUAL \<and>
   fst (IPAVersion_rpmvercmp (Inr rpmvercmp) None [] [CHR 0x00, CHR ''1'']) = Inr 0 \<and>
   fst (IPAVersion_rpmvercmp (Inr rpmvercmp) None ''1.0'' ''1_0'') = Inr 0 \<and>
   fst (IPAVersion_rpmvercmp (Inr rpmvercmp) None ''1.0'' ''1.1'') =
     fst (IPAVersion_rpmvercmp (Inr rpmvercmp) None ''1_0'' ''1.1'') \<and>
   fst (compare_versions (Inr rpmvercmp) None (pystr ''1.0'') (pystr ''1_0'')) = Inr EQUAL \<and>
   fst (compare_versions (Inr rpmvercmp) None (pystr ''1.0'') (pystr ''1.1'')) =
     fst (compare_versions (Inr rpmvercmp) None (pystr ''1_0'') (pystr ''1.1''))"
proof -
  have sep: "is_separator CHR ''.''" "is_separator CHR ''_''" "is_separator CHR 0x00"
    "separator_byte CHR ''.''" "separator_byte CHR ''_''"
    by (simp_all add: separator_byte_def is_separator_def risdigit_def risalpha_def is_tilde_def)
  have cls: "risdigit CHR ''1''" "is_tilde CHR ''~''"
    by (simp_all add: risdigit_def is_tilde_def)
  have u: "utf8_char 46 = Inr ''.''" "utf8_char 95 = Inr ''_''"
    by code_simp+
  have sc: "separator_char 46" "separator_char 95"
    by (simp_all add: separator_char_def u sep)
  have e: "encode_utf8 (pystr ''1.0'') = Inr ''1.0''"
    "encode_utf8 (pystr ''~rc1'') = Inr ''~rc1''"
    "encode_utf8 (pystr ''..'') = Inr ''..''"
    "encode_utf8 (pystr ''1'') = Inr ''1''"
    "encode_utf8 (pystr ''0'') = Inr ''0''"
    "encode_utf8 (pystr ''1.1'') = Inr ''1.1''"
    by code_simp+
  have p: "pystr ''1.0'' = pystr ''1'' @ 46 # pystr ''0''"
    "pystr ''1_0'' = pystr ''1'' @ 95 # pystr ''0''"
    by (simp_all add: pystr_def)
  have c: "c_char_p ''1.0'' = ''1.0''" "c_char_p ''~rc1'' = ''~rc1''" "c_char_p ''..'' = ''..''"
    "c_char_p [CHR 0x00, CHR ''1''] = []"
    by (simp_all add: c_char_p_def)
  have a: "dropWhile is_separator (c_char_p ''1.0'') = CHR ''1'' # ''.0''"
    "dropWhile is_separator (c_char_p ''~rc1'') = CHR ''~'' # ''rc1''"
    "dropWhile is_separator (c_char_p ''..'') = []"
    "dropWhile is_separator (c_char_p [CHR 0x00, CHR ''1'']) = []"
    by (simp_all add: c sep is_separator_def risdigit_def risalpha_def is_tilde_def)
  have t1: "fst (IPAVersion_rpmvercmp (Inr rpmvercmp) None [] ''1.0'') = Inr (- 1) \<and>
      fst (compare_versions (Inr rpmvercmp) None [] (pystr ''1.0'')) = Inr LESS"
    using version_edge_cases [of None "''1.0''" "CHR ''1''" "''.0''" "pystr ''1.0''"]
    by (simp add: a cls e)
  have t2: "fst (IPAVersion_rpmvercmp (Inr rpmvercmp) None [] ''~rc1'') = Inr 1 \<and>
      fst (compare_versions (Inr rpmvercmp) None [] (pystr ''~rc1'')) = Inr GREATER"
    using version_edge_cases [of None "''~rc1''" "CHR ''~''" "''rc1''" "pystr ''~rc1''"]
    by (simp add: a cls e)
  have t3: "fst (IPAVersion_rpmvercmp (Inr rpmvercmp) None [] ''..'') = Inr 0 \<and>
      fst (compare_versions (Inr rpmvercmp) None [] (pystr ''..'')) = Inr EQUAL"
    using version_edge_cases [of None "''..''" _ _ "pystr ''..''"]
    by (simp add: a e)
  have t4: "fst (IPAVersion_rpmvercmp (Inr rpmvercmp) None [] [CHR 0x00, CHR ''1'']) = Inr 0"
    using version_edge_cases [of None "[CHR 0x00, CHR ''1'']"]
    by (simp add: a)
  have t5: "fst (IPAVersion_rpmvercmp (Inr rpmvercmp) None ''1.0'' ''1_0'') = Inr 0 \<and>
      fst (IPAVersion_rpmvercmp (Inr rpmvercmp) None ''1.0'' ''1.1'') =
        fst (IPAVersion_rpmvercmp (Inr rpmvercmp) None ''1_0'' ''1.1'')"
    using version_edge_cases [of None _ _ _ _ "''.''" "''_''" "''1''" "''0''" "''1.1''"]
    by (simp add: sep)
  have t6: "fst (compare_versions (Inr rpmvercmp) None (pystr ''1.0'') (pystr ''1_0'')) = Inr EQUAL \<and>
      fst (compare_versions (Inr rpmvercmp) None (pystr ''1.0'') (pystr ''1.1'')) =
        fst (compare_versions (Inr rpmvercmp) None (pystr ''1_0'') (pystr ''1.1''))"
    using version_edge_cases [of None _ _ _ _ _ _ _ _ _ 46 95 "pystr ''1''" "''1''"
        "pystr ''0''" "''0''" "pystr ''1.1''" "''1.1''"]
    by (simp add: sc e p)
  from t1 t2 t3 t4 t5 t6 show ?thesis by simp
qed

subsection \<open>SELinux booleans\<close>

lemma trace_record_event: "trace (record_event ev w) = trace w @ [ev]"
  by (simp add: record_event_def)

lemma is_selinux_enabled_cases:
  "is_selinux_enabled E P w = (r, w') \<Longrightarrow> w' = record_event (Run [SELINUXENABLED P]) w"
  by (auto simp: is_selinux_enabled_def ipautil_run_def split: sum.splits exn.splits)

lemma is_selinux_enabled_True:
  "run E [SELINUXENABLED P] = Inr out \<Longrightarrow>
   is_selinux_enabled E P w = (Inr True, record_event (Run [SELINUXENABLED P]) w)"
  by (simp add: is_selinux_enabled_def ipautil_run_def)

lemma dict_set_fresh: "k \<notin> fst ` set d \<Longrightarrow> dict_set d k v = d @ [(k, v)]"
  by (induction d) auto

lemma changes_keys: "fst ` set (changes current rs) \<subseteq> fst ` set rs"
  by (induction current rs rule: changes.induct) auto

lemma query_setting_ok:
  assumes "query_ok E P bf current k"
  shows "\<exists>w1. query_setting E P bf k v w = (Inr (current k \<noteq> v), w1)"
  using assms
  by (auto simp: query_ok_def query_setting_def ipautil_run_def split: sum.splits)

lemma query_setting_fail:
  assumes "run E [GETSEBOOL P, k] = Inl CalledProcessError"
  shows "query_setting E P bf k v w = (Inl CalledProcessError, record_event (Run [GETSEBOOL P, k]) w)"
  using assms by (simp add: query_setting_def ipautil_run_def)

lemma query_settings_ok:
  assumes "list_all (\<lambda>(k', st). st \<noteq> None \<longrightarrow> query_ok E P bf current k') rs"
    and "distinct (map fst rs)"
    and "fst ` set rs \<inter> fst ` set upd = {}"
  shows "\<exists>w'. query_settings E P bf rs upd failed w = (Inr (upd @ changes current rs, failed), w')"
  using assms
proof (induction rs arbitrary: upd w)
  case Nil
  then show ?case by simp
next
  case (Cons x rs)
  obtain k st where x: "x = (k, st)" by (cases x)
  show ?case
  proof (cases st)
    case None
    with Cons x show ?thesis by auto
  next
    case (Some v)
    with Cons.prems x have ok: "query_ok E P bf current k" by simp
    obtain w1 where q: "query_setting E P bf k v w = (Inr (current k \<noteq> v), w1)"
      using query_setting_ok [OF ok] by blast
    show ?thesis
    proof (cases "current k \<noteq> v")
      case True
      have fresh: "k \<notin> fst ` set upd" using Cons.prems(3) x by auto
      have disj: "fst ` set rs \<inter> fst ` set (upd @ [(k, v)]) = {}"
        using Cons.prems(2,3) x by auto
      obtain w' where "query_settings E P bf rs (upd @ [(k, v)]) failed w1 =
          (Inr ((upd @ [(k, v)]) @ changes current rs, failed), w')"
        using Cons.IH [OF _ _ disj, of w1] Cons.prems(1,2) by auto
      then show ?thesis
        using x Some q True by (simp add: dict_set_fresh [OF fresh])
    next
      case False
      have disj: "fst ` set rs \<inter> fst ` set upd = {}"
        using Cons.prems(3) by auto
      obtain w' where "query_settings E P bf rs upd failed w1 =
          (Inr (upd @ changes current rs, failed), w')"
        using Cons.IH [OF _ _ disj, of w1] Cons.prems(1,2) by auto
      then show ?thesis
        using x Some q False by simp
    qed
  qed
qed

lemma query_settings_append:
  "query_settings E P bf (xs @ ys) upd failed w =
     (case query_settings E P bf xs upd failed w of
        (Inl e, w') \<Rightarrow> (Inl e, w')
      | (Inr (upd', failed'), w') \<Rightarrow> query_settings E P bf ys upd' failed' w')"
proof (induction xs arbitrary: upd failed w)
  case Nil
  then show ?case by simp
next
  case (Cons x xs)
  obtain k st where x: "x = (k, st)" by (cases x)
  show ?case
  proof (cases st)
    case None
    then show ?thesis using x Cons.IH by simp
  next
    case (Some v)
    obtain r w1 where q: "query_setting E P bf k v w = (r, w1)" by (cases "query_setting E P bf k v w")
    show ?thesis
      using x Some q Cons.IH
      by (simp split: sum.splits exn.splits bool.splits)
  qed
qed

lemma query_settings_one_failure:
  assumes d: "distinct (map fst (before @ (k, Some v) # after))"
    and fail: "run E [GETSEBOOL P, k] = Inl CalledProcessError"
    and ok: "list_all (\<lambda>(k', st). st \<noteq> None \<longrightarrow> query_ok E P bf current k') (before @ after)"
  shows "\<exists>w'. query_settings E P bf (before @ (k, Some v) # after) [] [] w =
           (Inr (changes current (before @ after), [(k, v)]), w')"
proof -
  have okb: "list_all (\<lambda>(k', st). st \<noteq> None \<longrightarrow> query_ok E P bf current k') before"
    and oka: "list_all (\<lambda>(k', st). st \<noteq> None \<longrightarrow> query_ok E P bf current k') after"
    using ok by simp_all
  have db: "distinct (map fst before)" and da: "distinct (map fst after)"
    and ba: "fst ` set before \<inter> fst ` set after = {}"
    using d by auto
  obtain w1 where b: "query_settings E P bf before [] [] w = (Inr ([] @ changes current before, []), w1)"
    using query_settings_ok [OF okb db, of "[]" "[]" w] by auto
  have disj: "fst ` set after \<inter> fst ` set (changes current before) = {}"
    using ba changes_keys [of current before] by blast
  obtain w2 where a: "query_settings E P bf after (changes current before) [(k, v)]
        (record_event (Run [GETSEBOOL P, k]) w1) =
      (Inr (changes current before @ changes current after, [(k, v)]), w2)"
    using query_settings_ok [OF oka da disj] by blast
  have app: "changes current (before @ after) = changes current before @ changes current after"
    by (induction current before rule: changes.induct) simp_all
  show ?thesis
    using b a by (simp add: query_settings_append query_setting_fail [OF fail] app)
qed


lemma py_split_run_ipa: "py_split ''httpd_run_ipa --> on'' = [''httpd_run_ipa'', ''-->'', ''on'']"
  by (simp add: is_space_def)

lemma py_split_network_connect: "py_split ''httpd_can_network_connect --> off'' = [''httpd_can_network_connect'', ''-->'', ''off'']"
  by (simp add: is_space_def)

lemma query_setting_ok_plain:
  assumes "query_ok E P False current k"
  shows "query_setting E P False k v w =
           (Inr (current k \<noteq> v), record_event (Run [GETSEBOOL P, k]) w)"
  using assms
  by (auto simp: query_ok_def query_setting_def ipautil_run_def split: sum.splits)

lemma selinux_on_env_enabled: "run selinux_on_env [SELINUXENABLED example_paths] = Inr []"
  by (simp add: selinux_on_env_def example_paths_def)

lemma selinux_on_env_run_ipa:
  "query_ok selinux_on_env example_paths False (\<lambda>k. ''on'') ''httpd_run_ipa''"
  by (simp add: query_ok_def selinux_on_env_def example_paths_def py_split_run_ipa py_index_def
      del: py_split.simps)


text \<open>
  C4. One setting's query fails (\<open>getsebool\<close> exits with an error), the queries of all
  other settings succeed, and the \<open>setsebool\<close> run that applies the other settings
  succeeds. Then the settings whose required state differs from the current one are
  handed to that one \<open>setsebool\<close> run, the last thing the call does, and the call
  raises one \<open>SetseboolError\<close> whose \<open>failed\<close> mapping holds the setting whose query
  failed, with its required state, and nothing else.
\<close>

theorem selinux_partial_failure:
  assumes en: "run E [SELINUXENABLED P] = Inr out0"
    and d: "distinct (map fst (before @ (k, Some v) # after))"
    and fail: "run E [GETSEBOOL P, k] = Inl CalledProcessError"
    and ok: "list_all (\<lambda>(k', st). st \<noteq> None \<longrightarrow> query_ok E P bf current k') (before @ after)"
    and applied: "changes current (before @ after) \<noteq> [] \<Longrightarrow>
                    run E (get_setsebool_args P (changes current (before @ after))) = Inr out1"
  shows "fst (set_selinux_booleans E P (before @ (k, Some v) # after) bf w) =
           Inl (SetseboolError [(k, v)] (py_join '' '' (get_setsebool_args P [(k, v)]))) \<and>
         (changes current (before @ after) \<noteq> [] \<longrightarrow>
            last (trace (snd (set_selinux_booleans E P (before @ (k, Some v) # after) bf w))) =
              Run (get_setsebool_args P (changes current (before @ after))))"
proof -
  obtain w2 where q: "query_settings E P bf (before @ (k, Some v) # after) [] []
        (record_event (Run [SELINUXENABLED P]) w) =
      (Inr (changes current (before @ after), [(k, v)]), w2)"
    using query_settings_one_failure [OF d fail ok] by blast
  show ?thesis
  proof (cases "changes current (before @ after) = []")
    case True
    then show ?thesis
      by (simp add: set_selinux_booleans_def is_selinux_enabled_True [OF en] q)
  next
    case False
    then show ?thesis
      by (simp add: set_selinux_booleans_def is_selinux_enabled_True [OF en] q ipautil_run_def
          applied [OF False] trace_record_event)
  qed
qed


theorem selinux_partial_failure_witness:
  "fst (set_selinux_booleans selinux_on_env example_paths
          [(''httpd_can_network_connect'', Some ''on''), (''httpd_manage_ipa'', Some ''on''),
           (''httpd_run_ipa'', Some ''off'')] False empty_world) =
     Inl (SetseboolError [(''httpd_manage_ipa'', ''on'')]
            ''/usr/sbin/setsebool -P httpd_manage_ipa=on'') \<and>
   last (trace (snd (set_selinux_booleans selinux_on_env example_paths
          [(''httpd_can_network_connect'', Some ''on''), (''httpd_manage_ipa'', Some ''on''),
           (''httpd_run_ipa'', Some ''off'')] False empty_world))) =
     Run [''/usr/sbin/setsebool'', ''-P'', ''httpd_can_network_connect=on'', ''httpd_run_ipa=off'']"
proof -
  let ?cur = "\<lambda>k. if k = ''httpd_run_ipa'' then ''on'' else ''off''"
  have en: "run selinux_on_env [SELINUXENABLED example_paths] = Inr []"
    by (simp add: selinux_on_env_def example_paths_def)
  have d: "distinct (map fst ([(''httpd_can_network_connect'', Some ''on'')] @
      (''httpd_manage_ipa'', Some ''on'') # [(''httpd_run_ipa'', Some ''off'')]))"
    by simp
  have fail: "run selinux_on_env [GETSEBOOL example_paths, ''httpd_manage_ipa''] = Inl CalledProcessError"
    by (simp add: selinux_on_env_def example_paths_def)
  have ok: "list_all (\<lambda>(k', st). st \<noteq> None \<longrightarrow> query_ok selinux_on_env example_paths False ?cur k')
      ([(''httpd_can_network_connect'', Some ''on'')] @ [(''httpd_run_ipa'', Some ''off'')])"
    by (simp add: query_ok_def selinux_on_env_def example_paths_def py_split_run_ipa py_split_network_connect py_index_def
        del: py_split.simps)
  have ch: "changes ?cur ([(''httpd_can_network_connect'', Some ''on'')] @ [(''httpd_run_ipa'', Some ''off'')])
      = [(''httpd_can_network_connect'', ''on''), (''httpd_run_ipa'', ''off'')]"
    by simp
  have args: "get_setsebool_args example_paths [(''httpd_can_network_connect'', ''on''), (''httpd_run_ipa'', ''off'')]
     = [''/usr/sbin/setsebool'', ''-P'', ''httpd_can_network_connect=on'', ''httpd_run_ipa=off'']"
    by (simp add: get_setsebool_args_def example_paths_def)
  have applied: "run selinux_on_env (get_setsebool_args example_paths
      (changes ?cur ([(''httpd_can_network_connect'', Some ''on'')] @ [(''httpd_run_ipa'', Some ''off'')]))) = Inr []"
    unfolding ch args by (simp add: selinux_on_env_def)
  have cmd: "py_join '' '' (get_setsebool_args example_paths [(''httpd_manage_ipa'', ''on'')]) =
      ''/usr/sbin/setsebool -P httpd_manage_ipa=on''"
    by (simp add: get_setsebool_args_def example_paths_def)
  from selinux_partial_failure [OF en d fail ok applied, of empty_world]
  show ?thesis
    unfolding ch args cmd by simp
qed

text \<open>
  C5, as stated, fails: with SELinux enabled and the one required boolean already in its
  required state, nothing is changed (\<open>setsebool\<close> is not run: the trace holds the
  probe and the query only), and the call returns \<open>True\<close>.
\<close>

theorem selinux_true_without_change:
  "fst (set_selinux_booleans selinux_on_env example_paths [(''httpd_run_ipa'', Some ''on'')]
          False empty_world) = Inr True \<and>
   trace (snd (set_selinux_booleans selinux_on_env example_paths
          [(''httpd_run_ipa'', Some ''on'')] False empty_world)) =
     [Run [''/usr/sbin/selinuxenabled''], Run [''/usr/sbin/getsebool'', ''httpd_run_ipa'']]"
proof -
  have p: "SELINUXENABLED example_paths = ''/usr/sbin/selinuxenabled''"
    "GETSEBOOL example_paths = ''/usr/sbin/getsebool''"
    by (simp_all add: example_paths_def)
  have t: "trace empty_world = []"
    by (simp add: empty_world_def)
  show ?thesis
    by (simp add: set_selinux_booleans_def
        is_selinux_enabled_True [OF selinux_on_env_enabled]
        query_setting_ok_plain [OF selinux_on_env_run_ipa]
        trace_record_event p t)
qed


text \<open>
  C5, amended. \<open>set_selinux_booleans\<close> returns \<open>False\<close> whenever SELinux is not
  enabled, having run nothing but the probe; when SELinux is enabled and no error is raised
  it returns \<open>True\<close>, whether or not a boolean was changed.
\<close>

theorem selinux_return_value:
  "(fst (is_selinux_enabled E P w) = Inr False \<longrightarrow>
      set_selinux_booleans E P rs bf w = (Inr False, record_event (Run [SELINUXENABLED P]) w)) \<and>
   (fst (is_selinux_enabled E P w) = Inr True \<and>
    fst (set_selinux_booleans E P rs bf w) = Inr r \<longrightarrow> r = True)"
proof (intro conjI impI)
  assume "fst (is_selinux_enabled E P w) = Inr False"
  then show "set_selinux_booleans E P rs bf w = (Inr False, record_event (Run [SELINUXENABLED P]) w)"
    using is_selinux_enabled_cases [of E P w]
    by (cases "is_selinux_enabled E P w") (auto simp: set_selinux_booleans_def)
next
  assume "fst (is_selinux_enabled E P w) = Inr True \<and>
    fst (set_selinux_booleans E P rs bf w) = Inr r"
  then show "r = True"
    by (cases "is_selinux_enabled E P w")
       (auto simp: set_selinux_booleans_def Let_def
             split: prod.splits sum.splits bool.splits exn.splits if_splits)
qed

theorem selinux_return_value_witness:
  "fst (is_selinux_enabled selinux_off_env example_paths empty_world) = Inr False \<and>
   fst (set_selinux_booleans selinux_off_env example_paths
          [(''httpd_run_ipa'', Some ''on'')] False empty_world) = Inr False \<and>
   fst (is_selinux_enabled selinux_on_env example_paths empty_world) = Inr True \<and>
   fst (set_selinux_booleans selinux_on_env example_paths
          [(''httpd_run_ipa'', Some ''on'')] False empty_world) = Inr True"
proof -
  have off: "fst (is_selinux_enabled selinux_off_env example_paths empty_world) = Inr False"
    by (simp add: is_selinux_enabled_def ipautil_run_def selinux_off_env_def)
  have on: "fst (is_selinux_enabled selinux_on_env example_paths empty_world) = Inr True"
    by (simp add: is_selinux_enabled_True [OF selinux_on_env_enabled])
  have r: "fst (set_selinux_booleans selinux_on_env example_paths
          [(''httpd_run_ipa'', Some ''on'')] False empty_world) = Inr True"
    by (simp add: set_selinux_booleans_def
        is_selinux_enabled_True [OF selinux_on_env_enabled]
        query_setting_ok_plain [OF selinux_on_env_run_ipa])
  from selinux_return_value [of selinux_off_env example_paths empty_world
      "[(''httpd_run_ipa'', Some ''on'')]" False True] off
    selinux_return_value [of selinux_on_env example_paths empty_world
      "[(''httpd_run_ipa'', Some ''on'')]" False True] on r
  show ?thesis by simp
qed

subsection \<open>The DNS resolver\<close>

lemma and_then_Inr:
  "(and_then m f = (Inr y, w')) = (\<exists>x w1. m = (Inr x, w1) \<and> f x w1 = (Inr y, w'))"
  by (cases m) (auto simp: and_then_def split: sum.splits)

lemma and_then_step: "m = (Inr x, w1) \<Longrightarrow> and_then m f = f x w1"
  by (simp add: and_then_def)

lemma and_then_raise: "m = (Inl e, w1) \<Longrightarrow> and_then m f = (Inl e, w1)"
  by (simp add: and_then_def)


text \<open>
  C10. When \<open>nameservers\<close> or \<open>searchdomains\<close> is empty or not a list,
  \<open>configure_dns_resolver\<close> raises \<open>AssertionError\<close> and leaves the world as it
  found it: no file is read or written and no collaborator is called (the trace, which
  records each such operation, is unchanged).
\<close>

theorem dns_resolver_asserts:
  assumes "(\<forall>xs. nameservers = PyList xs \<longrightarrow> xs = []) \<or>
           (\<forall>xs. searchdomains = PyList xs \<longrightarrow> xs = [])"
  shows "configure_dns_resolver E P super nm nameservers searchdomains resolve1_enabled
           has_fstore w = (Inl AssertionError, w)"
proof -
  have "\<not> (truthy nameservers \<and> isinstance_list nameservers) \<or>
        \<not> (truthy searchdomains \<and> isinstance_list searchdomains)"
    using assms by (cases nameservers; cases searchdomains) auto
  then show ?thesis
    by (auto simp: configure_dns_resolver_def)
qed

theorem dns_resolver_asserts_witness:
  "configure_dns_resolver no_faults_env example_paths base_noop nm_disabled
     (PyList []) (PyList [''example.com'']) False False empty_world =
     (Inl AssertionError, empty_world) \<and>
   configure_dns_resolver no_faults_env example_paths base_noop nm_disabled
     (PyList [''10.0.0.1'']) (PyTuple [''example.com'']) False False empty_world =
     (Inl AssertionError, empty_world)"
  using dns_resolver_asserts [of "PyList []" "PyList [''example.com'']" no_faults_env
      example_paths base_noop nm_disabled False False empty_world]
    dns_resolver_asserts [of "PyList [''10.0.0.1'']" "PyTuple [''example.com'']" no_faults_env
      example_paths base_noop nm_disabled False False empty_world]
  by simp


lemma files_record_event: "files (record_event ev w) = files w"
  by (simp add: record_event_def)

lemma write_resolv_conf_content:
  assumes "write_resolv_conf E P ns sd w = (Inr u, w')"
  shows "files w' (RESOLV_CONF P) = Some (py_join newline (resolv_conf_lines ns sd))"
  using assms
  by (auto simp: write_resolv_conf_def and_then_Inr open_write_def file_write_def
      record_event_def split: option.splits)

lemma static_resolver_file:
  assumes nm: "\<forall>w. fst (is_enabled nm w) = Inr False"
    and run: "configure_dns_resolver E P super nm (PyList ns) (PyList sd) False has_fstore w =
                (Inr u, w')"
  shows "files w' (RESOLV_CONF P) = Some (py_join newline (resolv_conf_lines ns sd))"
proof -
  have off: "b = False" if "is_enabled nm w0 = (Inr b, w1)" for w0 b w1
  proof -
    from nm have "fst (is_enabled nm w0) = Inr False" by blast
    with that show ?thesis by simp
  qed
  from run have ne: "ns \<noteq> []" "sd \<noteq> []"
    by (auto simp: configure_dns_resolver_def split: if_splits)
  from run ne show ?thesis
    by (auto simp: configure_dns_resolver_def and_then_Inr dest!: off
        intro: write_resolv_conf_content)
qed

lemma example_resolv_conf_lines:
  "split_lines (py_join newline
     (resolv_conf_lines [''10.0.0.1'', ''10.0.0.2''] [''example.com''])) =
   [''# auto-generated by IPA installer'', ''search example.com'',
    ''nameserver 10.0.0.1'', ''nameserver 10.0.0.2'']"
  by (simp add: resolv_conf_lines_def newline_def)


lemma example_resolver_run:
  "configure_dns_resolver no_faults_env example_paths base_noop nm_disabled
     (PyList [''10.0.0.1'', ''10.0.0.2'']) (PyList [''example.com'']) False False empty_world =
   (Inr (), snd (configure_dns_resolver no_faults_env example_paths base_noop nm_disabled
     (PyList [''10.0.0.1'', ''10.0.0.2'']) (PyList [''example.com'']) False False empty_world))"
  by (simp add: configure_dns_resolver_def and_then_def base_noop_def nm_disabled_def
      backup_resolv_conf_def write_resolv_conf_def open_write_def file_write_def
      no_faults_env_def)


text \<open>
  C3, as stated, fails: the first line of the static resolver file is not
  \<open>search example.com\<close> but the comment \<open># auto-generated by IPA installer\<close>.
\<close>

theorem resolv_conf_first_line:
  "map_option (hd \<circ> split_lines)
     (files (snd (configure_dns_resolver no_faults_env example_paths base_noop nm_disabled
        (PyList [''10.0.0.1'', ''10.0.0.2'']) (PyList [''example.com'']) False False
        empty_world)) ''/etc/resolv.conf'') =
   Some ''# auto-generated by IPA installer''"
proof -
  have nm: "\<forall>w. fst (is_enabled nm_disabled w) = Inr False"
    by (simp add: nm_disabled_def)
  have p: "RESOLV_CONF example_paths = ''/etc/resolv.conf''"
    by (simp add: example_paths_def)
  from static_resolver_file [OF nm example_resolver_run] example_resolv_conf_lines show ?thesis
    by (simp add: p)
qed

text \<open>
  C3, amended. With NetworkManager not enabled and systemd-resolved not enabled, a call
  with name servers \<open>10.0.0.1, 10.0.0.2\<close> and search domain \<open>example.com\<close> that
  returns leaves a resolver file of four lines: the comment
  \<open># auto-generated by IPA installer\<close>, then \<open>search example.com\<close>, then exactly
  two \<open>nameserver\<close> lines, one per address, in input order.
\<close>

theorem dns_static_resolver_file:
  assumes "\<forall>w. fst (is_enabled nm w) = Inr False"
    and "configure_dns_resolver E P super nm (PyList [''10.0.0.1'', ''10.0.0.2''])
           (PyList [''example.com'']) False has_fstore w = (Inr u, w')"
  shows "map_option split_lines (files w' (RESOLV_CONF P)) =
           Some [''# auto-generated by IPA installer'', ''search example.com'',
                 ''nameserver 10.0.0.1'', ''nameserver 10.0.0.2'']"
  using static_resolver_file [OF assms] example_resolv_conf_lines by simp


theorem dns_static_resolver_file_witness:
  "map_option split_lines
     (files (snd (configure_dns_resolver no_faults_env example_paths base_noop nm_disabled
        (PyList [''10.0.0.1'', ''10.0.0.2'']) (PyList [''example.com'']) False False
        empty_world)) (RESOLV_CONF example_paths)) =
   Some [''# auto-generated by IPA installer'', ''search example.com'',
         ''nameserver 10.0.0.1'', ''nameserver 10.0.0.2'']"
proof -
  have nm: "\<forall>w. fst (is_enabled nm_disabled w) = Inr False"
    by (simp add: nm_disabled_def)
  show ?thesis
    by (rule dns_static_resolver_file [OF nm example_resolver_run])
qed

subsection \<open>Removing files\<close>

lemma unlink_denied_env_faults: "faults unlink_denied_env (Unlink p) = Some (OSError EACCES)"
  "faults unlink_denied_env (FstoreHasFile p) = None"
  by (simp_all add: unlink_denied_env_def)

lemma nothing_there: "faults no_faults_env ev = None" "files empty_world p = None"
  "stored empty_world p = None"
  by (simp_all add: no_faults_env_def empty_world_def)


text \<open>
  C9, as stated, fails: an \<open>unlink\<close> that is refused with \<open>EACCES\<close>, an I/O error
  other than "file not found", is not propagated to the caller, neither by
  \<open>remove_httpd_service_ipa_conf\<close> nor by \<open>restore_pkcs11_modules\<close>; both return.
\<close>

theorem unlink_denied_not_raised:
  "fst (remove_httpd_service_ipa_conf unlink_denied_env example_paths empty_world) = Inr () \<and>
   fst (restore_pkcs11_modules unlink_denied_env example_paths empty_world) = Inr []"
  by (simp add: remove_httpd_service_ipa_conf_def restore_pkcs11_modules_def
      PKCS11_MODULES_def os_unlink_def and_then_def fstore_has_file_def unlink_denied_env_faults nothing_there
      record_event_def)


text \<open>
  C9, amended. On both paths a "file not found" error of the \<open>unlink\<close> does not raise,
  and neither does any other \<open>OSError\<close> of the \<open>unlink\<close>:
  \<open>remove_httpd_service_ipa_conf\<close> returns without reloading systemd,
  \<open>restore_pkcs11_modules\<close> goes on to ask the backup store and does not report the
  file name.
\<close>

theorem unlink_errors_not_raised:
  "(faults E (Unlink (SYSTEMD_SYSTEM_HTTPD_IPA_CONF P)) = Some (OSError errno) \<longrightarrow>
      remove_httpd_service_ipa_conf E P w =
        (Inr (), record_event (Unlink (SYSTEMD_SYSTEM_HTTPD_IPA_CONF P)) w)) \<and>
   (faults E (Unlink (SYSTEMD_SYSTEM_HTTPD_IPA_CONF P)) = None \<and>
    files w (SYSTEMD_SYSTEM_HTTPD_IPA_CONF P) = None \<longrightarrow>
      remove_httpd_service_ipa_conf E P w =
        (Inr (), record_event (Unlink (SYSTEMD_SYSTEM_HTTPD_IPA_CONF P)) w)) \<and>
   (faults E (Unlink (module_filename P ''softhsm2'')) = Some (OSError errno) \<and>
    faults E (FstoreHasFile (module_filename P ''softhsm2'')) = None \<and>
    stored w (module_filename P ''softhsm2'') = None \<longrightarrow>
      restore_pkcs11_modules E P w =
        (Inr [], record_event (FstoreHasFile (module_filename P ''softhsm2''))
                   (record_event (Unlink (module_filename P ''softhsm2'')) w))) \<and>
   (faults E (Unlink (module_filename P ''softhsm2'')) = None \<and>
    files w (module_filename P ''softhsm2'') = None \<and>
    faults E (FstoreHasFile (module_filename P ''softhsm2'')) = None \<and>
    stored w (module_filename P ''softhsm2'') = None \<longrightarrow>
      restore_pkcs11_modules E P w =
        (Inr [], record_event (FstoreHasFile (module_filename P ''softhsm2''))
                   (record_event (Unlink (module_filename P ''softhsm2'')) w)))"
proof (intro conjI impI)
  assume "faults E (Unlink (SYSTEMD_SYSTEM_HTTPD_IPA_CONF P)) = Some (OSError errno)"
  then show "remove_httpd_service_ipa_conf E P w =
        (Inr (), record_event (Unlink (SYSTEMD_SYSTEM_HTTPD_IPA_CONF P)) w)"
    by (simp add: remove_httpd_service_ipa_conf_def os_unlink_def)
next
  assume "faults E (Unlink (SYSTEMD_SYSTEM_HTTPD_IPA_CONF P)) = None \<and>
    files w (SYSTEMD_SYSTEM_HTTPD_IPA_CONF P) = None"
  then show "remove_httpd_service_ipa_conf E P w =
        (Inr (), record_event (Unlink (SYSTEMD_SYSTEM_HTTPD_IPA_CONF P)) w)"
    by (simp add: remove_httpd_service_ipa_conf_def os_unlink_def)
next
  assume "faults E (Unlink (module_filename P ''softhsm2'')) = Some (OSError errno) \<and>
    faults E (FstoreHasFile (module_filename P ''softhsm2'')) = None \<and>
    stored w (module_filename P ''softhsm2'') = None"
  then show "restore_pkcs11_modules E P w =
        (Inr [], record_event (FstoreHasFile (module_filename P ''softhsm2''))
                   (record_event (Unlink (module_filename P ''softhsm2'')) w))"
    by (simp add: restore_pkcs11_modules_def PKCS11_MODULES_def os_unlink_def and_then_def
        fstore_has_file_def record_event_def)
next
  assume "faults E (Unlink (module_filename P ''softhsm2'')) = None \<and>
    files w (module_filename P ''softhsm2'') = None \<and>
    faults E (FstoreHasFile (module_filename P ''softhsm2'')) = None \<and>
    stored w (module_filename P ''softhsm2'') = None"
  then show "restore_pkcs11_modules E P w =
        (Inr [], record_event (FstoreHasFile (module_filename P ''softhsm2''))
                   (record_event (Unlink (module_filename P ''softhsm2'')) w))"
    by (simp add: restore_pkcs11_modules_def PKCS11_MODULES_def os_unlink_def and_then_def
        fstore_has_file_def record_event_def)
qed


theorem unlink_errors_not_raised_witness:
  "fst (remove_httpd_service_ipa_conf unlink_denied_env example_paths empty_world) = Inr () \<and>
   fst (remove_httpd_service_ipa_conf no_faults_env example_paths empty_world) = Inr () \<and>
   fst (restore_pkcs11_modules unlink_denied_env example_paths empty_world) = Inr [] \<and>
   fst (restore_pkcs11_modules no_faults_env example_paths empty_world) = Inr []"
  using unlink_errors_not_raised [of unlink_denied_env example_paths EACCES empty_world]
    unlink_errors_not_raised [of no_faults_env example_paths EACCES empty_world]
  by (simp add: unlink_denied_env_faults nothing_there)

subsection \<open>The PKCS#11 module file\<close>

lemma count_list_snoc: "count_list (xs @ [x]) y = count_list xs y + (if x = y then 1 else 0)"
  by (induction xs) simp_all

lemma backups_record_event:
  "backups f (record_event ev w) = backups f w + (if ev = FstoreBackupFile f then 1 else 0)"
  by (simp add: backups_def record_event_def count_list_snoc)

lemma backups_update [simp]:
  "backups f (w\<lparr>files := fs\<rparr>) = backups f w"
  "backups f (w\<lparr>modes := ms\<rparr>) = backups f w"
  "backups f (w\<lparr>stored := st\<rparr>) = backups f w"
  by (simp_all add: backups_def)

lemma and_then_backups:
  assumes "backups f (snd m) = n"
    and "\<And>x w1. backups f w1 = n \<Longrightarrow> backups f (snd (g x w1)) = n"
  shows "backups f (snd (and_then m g)) = n"
  using assms by (cases m) (auto simp: and_then_def split: sum.splits)

lemma backups_primitives:
  "backups f (snd (os_path_isfile p w)) = backups f w"
  "backups f (snd (os_path_exists p w)) = backups f w"
  "backups f (snd (read_file E p w)) = backups f w"
  "backups f (snd (open_write E p w)) = backups f w"
  "backups f (snd (file_write E p txt w)) = backups f w"
  "backups f (snd (os_fchmod E p m w)) = backups f w"
  "backups f (snd (fstore_has_file E p w)) = backups f w"
  "backups f (snd (ipautil_run E args w)) = backups f w"
  "backups f (snd (ipautil_run_noraise E args w)) = backups f w"
  by (simp_all add: os_path_isfile_def os_path_exists_def read_file_def open_write_def
      file_write_def os_fchmod_def fstore_has_file_def ipautil_run_def ipautil_run_noraise_def
      backups_record_event split: option.splits sum.splits exn.splits)

lemma backups_is_selinux_enabled: "backups f (snd (is_selinux_enabled E P w)) = backups f w"
  by (simp add: is_selinux_enabled_def ipautil_run_def backups_record_event
      split: sum.splits exn.splits)

lemma backups_restore_context:
  "backups f (snd (restore_context E P p force w)) = backups f w"
proof -
  obtain r w1 where s: "is_selinux_enabled E P w = (r, w1)"
    by (cases "is_selinux_enabled E P w")
  then have w1: "backups f w1 = backups f w"
    using backups_is_selinux_enabled [of f E P w] by simp
  obtain b w2 where x: "os_path_exists (SBIN_RESTORECON P) w1 = (b, w2)"
    by (cases "os_path_exists (SBIN_RESTORECON P) w1")
  then have w2: "backups f w2 = backups f w"
    using backups_primitives(2) [of f "SBIN_RESTORECON P" w1] w1 by simp
  show ?thesis
    using s x w1 w2 backups_primitives(9) [of f E _ w2]
    by (simp add: restore_context_def split: sum.splits bool.splits)
qed

lemma backups_write_module:
  "backups f (snd (write_module E p m d w)) = backups f w"
  unfolding write_module_def
  by (intro and_then_backups) (simp_all add: backups_primitives)

lemma backups_backup_existing_module:
  "backups g (snd (backup_existing_module E f w)) =
     backups g w + (if g = f \<and> backup_needed E f w then 1 else 0)"
  by (simp add: backup_existing_module_def backup_needed_def os_path_isfile_def read_file_def
      fstore_has_file_def fstore_backup_file_def and_then_def backups_record_event
      files_record_event record_event_def backups_def count_list_snoc
      split: option.splits)

lemma backups_configure_pkcs11_modules:
  "backups g (snd (configure_pkcs11_modules E P w)) =
     backups g w +
     (if g = module_filename P ''softhsm2'' \<and>
         backup_needed E (module_filename P ''softhsm2'') w then 1 else 0)"
  unfolding configure_pkcs11_modules_def PKCS11_MODULES_def configure_modules.simps
  by (intro and_then_backups)
     (simp_all add: backups_backup_existing_module backups_write_module
        backups_restore_context)

lemma files_primitives:
  "files (snd (os_path_exists p w)) = files w"
  "files (snd (ipautil_run E args w)) = files w"
  "files (snd (ipautil_run_noraise E args w)) = files w"
  "files (snd (is_selinux_enabled E P w)) = files w"
  by (simp_all add: os_path_exists_def ipautil_run_def ipautil_run_noraise_def
      is_selinux_enabled_def files_record_event split: sum.splits exn.splits)

lemma files_restore_context: "files (snd (restore_context E P p force w)) = files w"
proof -
  obtain r w1 where s: "is_selinux_enabled E P w = (r, w1)"
    by (cases "is_selinux_enabled E P w")
  then have w1: "files w1 = files w"
    using files_primitives(4) [of E P w] by simp
  obtain b w2 where x: "os_path_exists (SBIN_RESTORECON P) w1 = (b, w2)"
    by (cases "os_path_exists (SBIN_RESTORECON P) w1")
  then have w2: "files w2 = files w"
    using files_primitives(1) [of "SBIN_RESTORECON P" w1] w1 by simp
  show ?thesis
    using s x w1 w2 files_primitives(3) [of E _ w2]
    by (simp add: restore_context_def split: sum.splits bool.splits)
qed

lemma write_module_content:
  assumes "write_module E f m d w = (Inr u, w')"
  shows "files w' f =
           Some (''# created by IPA installer'' @ newline @ ''module: '' @ m @ newline @
                 ''disable-in: '' @ py_join '', '' d @ newline)"
  using assms
  by (auto simp: write_module_def and_then_Inr open_write_def file_write_def os_fchmod_def
      record_event_def split: option.splits)

lemma take_append_le: "n \<le> length xs \<Longrightarrow> take n (xs @ ys) = take n xs"
  by simp

lemma contains_append: "contains needle xs \<Longrightarrow> contains needle (xs @ ys)"
proof (induction xs)
  case Nil
  then show ?case by (cases ys) simp_all
next
  case (Cons c cs)
  show ?case
  proof (cases "take (length needle) (c # cs) = needle")
    case True
    then have "length (take (length needle) (c # cs)) = length needle"
      by simp
    then have "length needle \<le> length (c # cs)"
      by simp
    then have "take (length needle) ((c # cs) @ ys) = take (length needle) (c # cs)"
      by (rule take_append_le)
    with True show ?thesis by simp
  next
    case False
    with Cons show ?thesis by simp
  qed
qed

lemma ipa_marker: "contains ''IPA'' (''# created by IPA installer'' @ rest)"
  by (rule contains_append) simp

lemma configured_module_has_marker:
  assumes "configure_pkcs11_modules E P w = (Inr fs, w')"
  shows "\<exists>rest. files w' (module_filename P ''softhsm2'') =
           Some (''# created by IPA installer'' @ rest)"
proof -
  from assms obtain w1 w2 u where
    wm: "write_module E (module_filename P ''softhsm2'') (LIBSOFTHSM2_SO P) [''p11-kit-proxy''] w1
           = (Inr u, w2)" and
    rc: "restore_context E P (module_filename P ''softhsm2'') False w2 = (Inr (), w')"
    by (auto simp: configure_pkcs11_modules_def PKCS11_MODULES_def and_then_Inr)
  from rc have "files w' = files w2"
    using files_restore_context [of E P "module_filename P ''softhsm2''" False w2] by simp
  with write_module_content [OF wm] show ?thesis by simp
qed

lemma not_needed_after_configure:
  assumes "configure_pkcs11_modules E P w = (Inr fs, w')"
  shows "\<not> backup_needed E' (module_filename P ''softhsm2'') w'"
  using configured_module_has_marker [OF assms]
  by (auto simp: backup_needed_def ipa_marker)


lemma example_module_filename:
  "module_filename example_paths ''softhsm2'' = ''/etc/pkcs11/modules/softhsm2.module''"
  by (simp add: module_filename_def example_paths_def os_path_join_def)

lemma example_backup_needed:
  "backup_needed no_faults_env ''/etc/pkcs11/modules/softhsm2.module'' user_module_world"
  by (simp add: backup_needed_def no_faults_env_def user_module_world_def)

lemma backup_existing_module_succeeds:
  assumes f: "\<And>ev. faults E ev = None"
  shows "\<exists>w1. backup_existing_module E p w = (Inr (), w1)"
  by (cases "files w p")
     (simp_all add: backup_existing_module_def os_path_isfile_def read_file_def
        fstore_has_file_def fstore_backup_file_def and_then_def f files_record_event
        record_event_def)

lemma write_module_succeeds:
  assumes f: "\<And>ev. faults E ev = None"
  shows "\<exists>w1. write_module E p m d w = (Inr (), w1)"
  by (simp add: write_module_def open_write_def file_write_def os_fchmod_def and_then_def f)

lemma restore_context_succeeds:
  assumes r: "\<And>args. run E args = Inr (out args)"
  shows "\<exists>w1. restore_context E P p force w = (Inr (), w1)"
  by (cases "files w (SBIN_RESTORECON P)")
     (simp_all add: restore_context_def is_selinux_enabled_def ipautil_run_def
        ipautil_run_noraise_def os_path_exists_def r files_record_event)

lemma configure_pkcs11_modules_succeeds:
  assumes f: "\<And>ev. faults E ev = None" and r: "\<And>args. run E args = Inr (out args)"
  shows "fst (configure_pkcs11_modules E P w) = Inr [module_filename P ''softhsm2'']"
proof -
  obtain w1 where 1: "backup_existing_module E (module_filename P ''softhsm2'') w = (Inr (), w1)"
    using backup_existing_module_succeeds [OF f] by blast
  obtain w2 where 2: "write_module E (module_filename P ''softhsm2'') (LIBSOFTHSM2_SO P)
      [''p11-kit-proxy''] w1 = (Inr (), w2)"
    using write_module_succeeds [OF f] by blast
  obtain w3 where 3: "restore_context E P (module_filename P ''softhsm2'') False w2 = (Inr (), w3)"
    using restore_context_succeeds [OF r] by blast
  show ?thesis
    by (simp add: configure_pkcs11_modules_def PKCS11_MODULES_def
        and_then_step [OF 1] and_then_step [OF 2] and_then_step [OF 3])
qed

lemma example_configure:
  "fst (configure_pkcs11_modules no_faults_env example_paths user_module_world) =
     Inr [''/etc/pkcs11/modules/softhsm2.module'']"
  using configure_pkcs11_modules_succeeds [of no_faults_env "\<lambda>args. []" example_paths
      user_module_world]
  by (simp add: no_faults_env_def example_module_filename)


text \<open>
  C7. One call of \<open>configure_pkcs11_modules\<close> asks the backup store for a backup of the
  module file once when the file exists, holds no IPA marker and is not in the store, and
  not at all otherwise: never for a file whose content holds the marker \<open>IPA\<close>, never
  when the store has the file already. It backs up no other file. After a call that
  returned, the file is one the task generated, so a further call, whatever fails or not
  in it, adds no backup: the pre-existing file is backed up exactly once.
\<close>

theorem pkcs11_backup_once:
  "backups g (snd (configure_pkcs11_modules E P w)) =
     backups g w +
     (if g = module_filename P ''softhsm2'' \<and>
         backup_needed E (module_filename P ''softhsm2'') w then 1 else 0) \<and>
   (files w (module_filename P ''softhsm2'') = Some content \<and> contains ''IPA'' content \<longrightarrow>
      backups g (snd (configure_pkcs11_modules E P w)) = backups g w) \<and>
   (stored w (module_filename P ''softhsm2'') = Some copy \<longrightarrow>
      backups g (snd (configure_pkcs11_modules E P w)) = backups g w) \<and>
   (fst (configure_pkcs11_modules E P w) = Inr fs \<longrightarrow>
      backups g (snd (configure_pkcs11_modules E' P (snd (configure_pkcs11_modules E P w)))) =
      backups g (snd (configure_pkcs11_modules E P w)))"
proof (intro conjI impI)
  show "backups g (snd (configure_pkcs11_modules E P w)) =
     backups g w +
     (if g = module_filename P ''softhsm2'' \<and>
         backup_needed E (module_filename P ''softhsm2'') w then 1 else 0)"
    by (rule backups_configure_pkcs11_modules)
next
  assume "files w (module_filename P ''softhsm2'') = Some content \<and> contains ''IPA'' content"
  then have "\<not> backup_needed E (module_filename P ''softhsm2'') w"
    by (simp add: backup_needed_def)
  then show "backups g (snd (configure_pkcs11_modules E P w)) = backups g w"
    by (simp add: backups_configure_pkcs11_modules)
next
  assume "stored w (module_filename P ''softhsm2'') = Some copy"
  then have "\<not> backup_needed E (module_filename P ''softhsm2'') w"
    by (simp add: backup_needed_def split: option.splits)
  then show "backups g (snd (configure_pkcs11_modules E P w)) = backups g w"
    by (simp add: backups_configure_pkcs11_modules)
next
  assume "fst (configure_pkcs11_modules E P w) = Inr fs"
  then have "configure_pkcs11_modules E P w = (Inr fs, snd (configure_pkcs11_modules E P w))"
    by (cases "configure_pkcs11_modules E P w") simp
  then have "\<not> backup_needed E' (module_filename P ''softhsm2'')
      (snd (configure_pkcs11_modules E P w))"
    by (rule not_needed_after_configure)
  then show "backups g (snd (configure_pkcs11_modules E' P (snd (configure_pkcs11_modules E P w)))) =
      backups g (snd (configure_pkcs11_modules E P w))"
    by (simp add: backups_configure_pkcs11_modules)
qed


theorem pkcs11_backup_once_witness:
  "backups ''/etc/pkcs11/modules/softhsm2.module'' user_module_world = 0 \<and>
   backups ''/etc/pkcs11/modules/softhsm2.module''
     (snd (configure_pkcs11_modules no_faults_env example_paths user_module_world)) = 1 \<and>
   backups ''/etc/pkcs11/modules/softhsm2.module''
     (snd (configure_pkcs11_modules no_faults_env example_paths
        (snd (configure_pkcs11_modules no_faults_env example_paths user_module_world)))) = 1"
proof -
  have 0: "backups ''/etc/pkcs11/modules/softhsm2.module'' user_module_world = 0"
    by (simp add: backups_def user_module_world_def)
  from pkcs11_backup_once [of "''/etc/pkcs11/modules/softhsm2.module''" no_faults_env
      example_paths user_module_world _ _ "[''/etc/pkcs11/modules/softhsm2.module'']"
      no_faults_env]
    0 example_backup_needed example_configure
  show ?thesis
    by (simp add: example_module_filename)
qed

subsection \<open>The trust-object store\<close>

lemma eku_count_simps [simp]:
  "eku_count q [] = 0"
  "eku_count q (ExtensionObject l p v # objs) = (if p = q then 1 else 0) + eku_count q objs"
  "eku_count q (CertificateObject l s i n p t m # objs) = eku_count q objs"
  by (simp_all add: eku_count_def)











end
